theory Spec2Isabelle
  imports Main
begin

section \<open>The Mealie API command-line client (mealie-api.py)\<close>

text \<open>
  A shallow embedding of \<^verbatim>\<open>src/mealie-api.py\<close>. The functions of the script are HOL
  functions of the same names; \<^verbatim>\<open>format_html_response\<close>, which is calls of the HTML
  parser from its first line to its last, is a parameter. What the script does beyond
  computing values is explicit:
  \<^item> everything written to standard output, every file opened or closed and the one HTTP
    call are \<open>event\<close>s, listed in the order in which they happen;
  \<^item> \<^verbatim>\<open>sys.exit(n)\<close> and an exception that nothing catches are values of type \<open>abort\<close>;
    a function that can end that way returns \<open>abort + 'a\<close>;
  \<^item> the libraries and the operating system the script calls (the JSON codec, the
    file system, the HTTP transport, the HTML parser, the process environment) are the
    fields of one record \<open>env\<close>, so every theorem holds for each way they can behave.

  Strings are \<open>string\<close>: a Python string is the list of the bytes of its UTF-8
  encoding, so a character outside ASCII is two to four \<open>char\<close>s (the check mark and
  the ballot cross of the status banners are three each). In UTF-8 no byte of a character
  outside ASCII is an ASCII byte, so \<^verbatim>\<open>startswith\<close>, \<^verbatim>\<open>in\<close>, \<^verbatim>\<open>split\<close> and
  \<^verbatim>\<open>replace\<close> with ASCII arguments act on the bytes as they act on the characters.

  Writing to standard output is taken to succeed, as is opening a file that
  \<^verbatim>\<open>os.path.isfile\<close> has just found.
\<close>

subsection \<open>Strings as Python handles them\<close>

definition NL :: char where
  "NL = CHR 0x0A"

definition ESC :: char where
  "ESC = CHR 0x1B"

definition backslash :: char where
  "backslash = CHR 0x5C"

text \<open>
  \<^verbatim>\<open>str.lower\<close>, as far as the script depends on it. The script compares a lowercased
  string with ASCII text only: a key with four names, the name of a header with
  \<^verbatim>\<open>content-type\<close>, a content type with two substrings. Python lowercases a
  character outside ASCII to characters outside ASCII, with two exceptions that change
  none of these comparisons: the Kelvin sign becomes \<^verbatim>\<open>k\<close>, a letter of none of these
  texts, and the dotted capital I becomes \<^verbatim>\<open>i\<close> with a combining dot behind it,
  where these texts have an ASCII letter behind every \<^verbatim>\<open>i\<close>. So the comparisons
  come out the same when the bytes outside ASCII are left as they are. The one
  lowercased string that is printed, the content type in front of a body that is neither
  JSON nor HTML, is exact when the content type is ASCII. \<open>upper\<close> is the analogue for
  ASCII text; what \<^verbatim>\<open>str.upper\<close> does with all of Unicode is a field of \<open>env\<close>
  below.
\<close>

definition lower_char :: "char \<Rightarrow> char" where
  "lower_char c =
     (let n = (of_char c :: nat) in if 65 \<le> n \<and> n \<le> 90 then char_of (n + 32) else c)"

definition upper_char :: "char \<Rightarrow> char" where
  "upper_char c =
     (let n = (of_char c :: nat) in if 97 \<le> n \<and> n \<le> 122 then char_of (n - 32) else c)"

definition lower :: "string \<Rightarrow> string" where
  "lower s = map lower_char s"

definition upper :: "string \<Rightarrow> string" where
  "upper s = map upper_char s"

text \<open>\<^verbatim>\<open>s.startswith(p)\<close>, \<^verbatim>\<open>s.endswith(p)\<close> and \<^verbatim>\<open>sub in s\<close>.\<close>

definition startswith :: "string \<Rightarrow> string \<Rightarrow> bool" where
  "startswith s p = (take (length p) s = p)"

definition endswith :: "string \<Rightarrow> string \<Rightarrow> bool" where
  "endswith s p = (length p \<le> length s \<and> drop (length s - length p) s = p)"

text \<open>
  The characters that \<^verbatim>\<open>str.strip()\<close> removes, in UTF-8: the ASCII codes 9 to 13, 28
  to 31 and 32, then U+0085, U+00A0, U+1680, U+2000 to U+200A, U+2028, U+2029, U+202F,
  U+205F and U+3000.
\<close>

definition whitespace :: "string list" where
  "whitespace =
     map (\<lambda>c. [c])
       [CHR 0x09, CHR 0x0A, CHR 0x0B, CHR 0x0C, CHR 0x0D,
        CHR 0x1C, CHR 0x1D, CHR 0x1E, CHR 0x1F, CHR 0x20]
     @ [[CHR 0xC2, CHR 0x85], [CHR 0xC2, CHR 0xA0], [CHR 0xE1, CHR 0x9A, CHR 0x80]]
     @ map (\<lambda>c. [CHR 0xE2, CHR 0x80, c])
         [CHR 0x80, CHR 0x81, CHR 0x82, CHR 0x83, CHR 0x84, CHR 0x85, CHR 0x86, CHR 0x87,
          CHR 0x88, CHR 0x89, CHR 0x8A, CHR 0xA8, CHR 0xA9, CHR 0xAF]
     @ [[CHR 0xE2, CHR 0x81, CHR 0x9F], [CHR 0xE3, CHR 0x80, CHR 0x80]]"

text \<open>
  \<^verbatim>\<open>str.strip()\<close> removes whitespace from both ends: for as long as the string
  starts (ends) with a whitespace character, that character is taken away.
\<close>

function lstrip :: "string \<Rightarrow> string" where
  "lstrip s =
     (case find (startswith s) whitespace of
        None \<Rightarrow> s
      | Some w \<Rightarrow> lstrip (drop (length w) s))"
  by pat_completeness auto
termination
proof (relation "measure length")
  fix s w :: string
  assume "find (startswith s) whitespace = Some w"
  then have "w \<in> set whitespace" and "startswith s w"
    by (auto simp: find_Some_iff)
  then have "w \<noteq> []"
    by (auto simp: whitespace_def)
  moreover have "length w \<le> length s"
    using \<open>startswith s w\<close> length_take [of "length w" s] by (simp add: startswith_def)
  ultimately show "(drop (length w) s, s) \<in> measure length"
    by (cases w) auto
qed simp

function rstrip :: "string \<Rightarrow> string" where
  "rstrip s =
     (case find (endswith s) whitespace of
        None \<Rightarrow> s
      | Some w \<Rightarrow> rstrip (take (length s - length w) s))"
  by pat_completeness auto
termination
proof (relation "measure length")
  fix s w :: string
  assume "find (endswith s) whitespace = Some w"
  then have "w \<in> set whitespace" and "endswith s w"
    by (auto simp: find_Some_iff)
  then have "w \<noteq> []"
    by (auto simp: whitespace_def)
  moreover have "length w \<le> length s"
    using \<open>endswith s w\<close> by (simp add: endswith_def)
  ultimately show "(take (length s - length w) s, s) \<in> measure length"
    by (cases w) auto
qed simp

declare lstrip.simps [simp del] rstrip.simps [simp del]

definition strip :: "string \<Rightarrow> string" where
  "strip s = rstrip (lstrip s)"

text \<open>\<^verbatim>\<open>s.rstrip('/')\<close>.\<close>

definition rstrip_slash :: "string \<Rightarrow> string" where
  "rstrip_slash s = rev (dropWhile (\<lambda>c. c = CHR ''/'') (rev s))"

fun contains :: "string \<Rightarrow> string \<Rightarrow> bool" where
  "contains [] sub = (sub = [])"
| "contains (c # cs) sub = (startswith (c # cs) sub \<or> contains cs sub)"

text \<open>
  \<^verbatim>\<open>s.split(sep)\<close> for a separator of one character: the pieces between the
  separators, never an empty list.
\<close>

fun split :: "char \<Rightarrow> string \<Rightarrow> string list" where
  "split sep [] = [[]]"
| "split sep (c # cs) =
     (if c = sep then [] # split sep cs
      else (c # hd (split sep cs)) # tl (split sep cs))"

text \<open>
  \<^verbatim>\<open>s.replace(old, new)\<close>: the occurrences of \<open>old\<close> are replaced from left to
  right, and the search goes on behind each replaced occurrence. The script calls it with
  patterns of two characters only; for the empty pattern (where Python inserts \<open>new\<close>
  between all characters) the function below returns its argument.
\<close>

function replace :: "string \<Rightarrow> string \<Rightarrow> string \<Rightarrow> string" where
  "replace s old new =
     (if old = [] \<or> s = [] then s
      else if startswith s old then new @ replace (drop (length old) s) old new
      else hd s # replace (tl s) old new)"
  by pat_completeness auto
termination
  by (relation "measure (\<lambda>(s, old, new). length s)") (auto simp: neq_Nil_conv)

declare replace.simps [simp del]

text \<open>\<^verbatim>\<open>str(n)\<close> for an integer.\<close>

definition digit :: "nat \<Rightarrow> char" where
  "digit d = char_of (48 + d)"

fun str_nat :: "nat \<Rightarrow> string" where
  "str_nat n = (if n < 10 then [digit n] else str_nat (n div 10) @ [digit (n mod 10)])"

definition str_int :: "int \<Rightarrow> string" where
  "str_int i = (if i < 0 then CHR ''-'' # str_nat (nat (- i)) else str_nat (nat i))"

subsection \<open>Values, requests, responses\<close>

text \<open>
  The values \<^verbatim>\<open>json.loads\<close> produces. \<open>PNone\<close> is Python's \<^verbatim>\<open>None\<close>: the value
  of the JSON text \<^verbatim>\<open>null\<close> and the script's "no payload" are this one value.
  A dictionary is the list of its items in insertion order; in a dictionary the keys are
  distinct (\<open>wf_dict\<close>). Floating-point numbers are outside the embedding.
\<close>

datatype pyval =
    PNone
  | PBool bool
  | PInt int
  | PStr string
  | PList "pyval list"
  | PDict "(string \<times> pyval) list"

definition wf_dict :: "('k \<times> 'v) list \<Rightarrow> bool" where
  "wf_dict kvs = distinct (map fst kvs)"

text \<open>\<^verbatim>\<open>d[k] = v\<close>: a known key keeps its place, a new key goes to the end.\<close>

fun setitem :: "('k \<times> 'v) list \<Rightarrow> 'k \<Rightarrow> 'v \<Rightarrow> ('k \<times> 'v) list" where
  "setitem [] k v = [(k, v)]"
| "setitem ((k', v') # d) k v = (if k' = k then (k, v) # d else (k', v') # setitem d k v)"

text \<open>The truth value of a value, as in \<^verbatim>\<open>if payload:\<close>.\<close>

fun truthy :: "pyval \<Rightarrow> bool" where
  "truthy PNone = False"
| "truthy (PBool b) = b"
| "truthy (PInt i) = (i \<noteq> 0)"
| "truthy (PStr s) = (s \<noteq> [])"
| "truthy (PList xs) = (xs \<noteq> [])"
| "truthy (PDict kvs) = (kvs \<noteq> [])"

text \<open>
  An open file is a handle: the number of the \<^verbatim>\<open>open\<close> call that made it, and the
  path. The body of a request is what \<^verbatim>\<open>requests.request\<close> receives as \<^verbatim>\<open>json=\<close>,
  or as \<^verbatim>\<open>files=\<close> and \<^verbatim>\<open>data=\<close>.
\<close>

type_synonym handle = "nat \<times> string"

datatype body =
    NoBody
  | JsonBody pyval
  | MultipartBody "(string \<times> handle) list" "(string \<times> pyval) list"

record request =
  req_method :: string
  req_url :: string
  req_headers :: "(string \<times> string) list"
  req_body :: body
  req_timeout :: nat

text \<open>
  How a JSON decode ends when it returns no value: it raises \<^verbatim>\<open>JSONDecodeError\<close>
  with a message, or it raises another exception, named here by its class
  (\<^verbatim>\<open>RecursionError\<close> for a text nested too deep, \<^verbatim>\<open>ValueError\<close> for an integer of
  too many digits).
\<close>

datatype load_error =
    JSONDecodeError string
  | OtherError string

text \<open>
  A \<^verbatim>\<open>requests.Response\<close>, with the attributes the script reads. \<open>resp_json\<close> is the
  outcome of \<^verbatim>\<open>response.json()\<close>: the value, or \<open>Inl\<close> the way it raised.
  \<open>resp_text\<close> is \<^verbatim>\<open>response.text\<close>.
  \<open>elapsed_ms\<close> is the text of \<^verbatim>\<open>f"{elapsed_ms:.2f}"\<close> (a response of the library
  always has the attribute \<^verbatim>\<open>elapsed\<close>).
\<close>

record response =
  status_code :: int
  reason :: string
  resp_url :: string
  resp_headers :: "(string \<times> string) list"
  resp_text :: string
  resp_content :: string
  resp_json :: "load_error + pyval"
  elapsed_ms :: string

text \<open>What \<^verbatim>\<open>requests.request\<close> can do: return a response, or raise.\<close>

datatype outcome =
    Response response
  | RequestException string
  | OtherException string

datatype event =
    Print string
  | Opened nat string
  | Closed nat
  | Sent request outcome

datatype abort =
    SysExit int
  | Uncaught string

text \<open>The exit status of the process.\<close>

fun exit_code :: "abort + 'a \<Rightarrow> int" where
  "exit_code (Inl (SysExit n)) = n"
| "exit_code (Inl (Uncaught e)) = 1"
| "exit_code (Inr x) = 0"

text \<open>What was written to standard output.\<close>

fun stdout :: "event list \<Rightarrow> string" where
  "stdout [] = []"
| "stdout (Print s # es) = s @ stdout es"
| "stdout (e # es) = stdout es"

text \<open>Running one step after another; an abort ends the run.\<close>

definition and_then ::
  "event list \<times> (abort + 'a) \<Rightarrow> ('a \<Rightarrow> event list \<times> (abort + 'b)) \<Rightarrow> event list \<times> (abort + 'b)"
where
  "and_then m f =
     (case m of
        (ev, Inl a) \<Rightarrow> (ev, Inl a)
      | (ev, Inr x) \<Rightarrow> (case f x of (ev', r) \<Rightarrow> (ev @ ev', r)))"

subsection \<open>The libraries and the operating system\<close>

text \<open>
  \<^item> \<open>getenv\<close>: \<^verbatim>\<open>os.getenv\<close>;
  \<^item> \<open>str_upper\<close>: \<^verbatim>\<open>str.upper\<close>;
  \<^item> \<open>json_loads\<close>: \<^verbatim>\<open>json.loads\<close>, the value or \<open>Inl\<close> the way it raised;
  \<^item> \<open>json_dumps indent ensure_ascii\<close>: \<^verbatim>\<open>json.dumps\<close>;
  \<^item> \<open>repr\<close>: the text of a list or dictionary inside an f-string;
  \<^item> \<open>expanduser\<close>, \<open>isfile\<close>, \<open>getsize\<close>: the functions of \<^verbatim>\<open>os.path\<close>;
  \<^item> \<open>kilo\<close>: the text of \<^verbatim>\<open>f"{n / 1024:.2f}"\<close>;
  \<^item> \<open>requests_request\<close>: \<^verbatim>\<open>requests.request\<close>;
  \<^item> \<open>html_text\<close>: what \<^verbatim>\<open>format_html_response\<close> makes of a page with the
    HTML parser.
\<close>

record env =
  getenv :: "string \<Rightarrow> string option"
  str_upper :: "string \<Rightarrow> string"
  json_loads :: "string \<Rightarrow> load_error + pyval"
  json_dumps :: "nat option \<Rightarrow> bool \<Rightarrow> pyval \<Rightarrow> string"
  repr :: "pyval \<Rightarrow> string"
  expanduser :: "string \<Rightarrow> string"
  isfile :: "string \<Rightarrow> bool"
  getsize :: "string \<Rightarrow> nat"
  kilo :: "nat \<Rightarrow> string"
  requests_request :: "request \<Rightarrow> outcome"
  html_text :: "string \<Rightarrow> string"

subsection \<open>Console output\<close>

definition SQ :: char where
  "SQ = CHR 0x27"

definition DQ :: char where
  "DQ = CHR 0x22"

definition RED :: string where
  "RED = ESC # ''[0;31m''"

definition GREEN :: string where
  "GREEN = ESC # ''[0;32m''"

definition YELLOW :: string where
  "YELLOW = ESC # ''[1;33m''"

definition BLUE :: string where
  "BLUE = ESC # ''[0;34m''"

definition MAGENTA :: string where
  "MAGENTA = ESC # ''[0;35m''"

definition CYAN :: string where
  "CYAN = ESC # ''[0;36m''"

definition NC :: string where
  "NC = ESC # ''[0m''"

text \<open>\<^verbatim>\<open>print(s)\<close> writes \<open>s\<close> and a newline.\<close>

definition print :: "string \<Rightarrow> event" where
  "print s = Print (s @ [NL])"

definition print_color :: "string \<Rightarrow> string \<Rightarrow> event" where
  "print_color color message = print (color @ message @ NC)"

definition show_usage :: "event list" where
  \<open>show_usage =
     [print ''Usage: mealie-api.py <endpoint> [json_payload] [http_method] [-m|--multipart] [-r|--raw] [-v|--verbose]'',
      print [],
      print ''Arguments:'',
      print ''  endpoint      - API endpoint (e.g., recipes, users/self)'',
      print ''  json_payload  - JSON data for POST/PUT requests (optional)'',
      print ''  http_method   - HTTP method: GET, POST, PUT, DELETE (default: GET, or POST if payload provided)'',
      print [],
      print ''Options:'',
      print ''  -m, --multipart - Use multipart/form-data content type instead of JSON'',
      print ''  -r, --raw       - Output raw response without status codes or formatting'',
      print ''                    useful for piping to other tools or scripts'',
      print ''  -v, --verbose   - Show detailed HTTP request information for debugging'',
      print [],
      print ''Examples:'',
      print ''  mealie-api.py recipes'',
      print ''  mealie-api.py recipes --raw'',
      print ''  mealie-api.py recipes --verbose'',
      print (''  mealie-api.py recipes '' @ [SQ] @ ''{"name":"My Recipe"}'' @ [SQ] @ '' POST''),
      print (''  mealie-api.py recipes/123 '' @ [SQ] @ ''{"name":"Updated Recipe"}'' @ [SQ] @ '' PUT''),
      print (''  mealie-api.py recipes/123 '' @ [SQ, SQ] @ '' DELETE''),
      print (''  mealie-api.py recipes/import-url '' @ [SQ] @ ''{"url":"https://example.com"}''
             @ [SQ] @ '' POST --multipart''),
      print (''  mealie-api.py groups/migrations '' @ [SQ]
             @ ''{"migration_type":"nextcloud","archive":"~/path/to/file.zip"}'' @ [SQ]
             @ '' POST --multipart''),
      print [],
      print ''See: https://docs.mealie.io/api/redoc/ for API documentation.'',
      print []]\<close>

subsection \<open>Environment and URL\<close>

text \<open>\<^verbatim>\<open>not s\<close> for an optional string: \<^verbatim>\<open>None\<close> and the empty string are false.\<close>

fun not_str :: "string option \<Rightarrow> bool" where
  "not_str None = True"
| "not_str (Some s) = (s = [])"

definition validate_environment :: "env \<Rightarrow> event list \<times> (abort + string \<times> string)" where
  "validate_environment e =
     (let mealie_url = getenv e ''MEALIE_URL'';
          mealie_token = getenv e ''MEALIE_TOKEN''
      in if not_str mealie_url then
           ([print_color RED ''Error: MEALIE_URL environment variable is not set'',
             print (''Set it with: export MEALIE_URL='' @ [SQ]
                    @ ''https://your-mealie-instance.com'' @ [SQ])],
            Inl (SysExit 1))
         else if not_str mealie_token then
           ([print_color RED ''Error: MEALIE_TOKEN environment variable is not set'',
             print (''Set it with: export MEALIE_TOKEN='' @ [SQ] @ ''your-api-token'' @ [SQ])],
            Inl (SysExit 1))
         else ([], Inr (rstrip_slash (the mealie_url), the mealie_token)))"

definition build_url :: "string \<Rightarrow> string \<Rightarrow> string" where
  "build_url base_url endpoint =
     (let endpoint' =
            (if startswith endpoint ''/'' then ''/api'' @ endpoint else ''/api/'' @ endpoint)
      in base_url @ endpoint')"

subsection \<open>The payload\<close>

text \<open>
  The repair of \<^verbatim>\<open>parse_json_payload\<close>: its sixteen calls of \<^verbatim>\<open>replace\<close>, in their
  order. Each replaces a backslash followed by one character with that character.
\<close>

definition fixed_payload :: "string \<Rightarrow> string" where
  \<open>fixed_payload payload =
     (let fixed_payload = replace payload [backslash, CHR '' ''] '' '';
          fixed_payload = replace fixed_payload [backslash, CHR ''(''] ''('';
          fixed_payload = replace fixed_payload [backslash, CHR '')''] '')'';
          fixed_payload = replace fixed_payload [backslash, CHR ''&''] ''&'';
          fixed_payload = replace fixed_payload [backslash, CHR ''[''] ''['';
          fixed_payload = replace fixed_payload [backslash, CHR '']''] '']'';
          fixed_payload = replace fixed_payload [backslash, CHR ''{''] ''{'';
          fixed_payload = replace fixed_payload [backslash, CHR ''}''] ''}'';
          fixed_payload = replace fixed_payload [backslash, CHR '';''] '';'';
          fixed_payload = replace fixed_payload [backslash, CHR ''>''] ''>'';
          fixed_payload = replace fixed_payload [backslash, CHR ''<''] ''<'';
          fixed_payload = replace fixed_payload [backslash, CHR ''|''] ''|'';
          fixed_payload = replace fixed_payload [backslash, CHR ''$''] ''$'';
          fixed_payload = replace fixed_payload [backslash, CHR 0x60] [CHR 0x60];
          fixed_payload = replace fixed_payload [backslash, SQ] [SQ];
          fixed_payload = replace fixed_payload [backslash, DQ] [DQ]
      in fixed_payload)\<close>

text \<open>
  \<^verbatim>\<open>json.loads\<close> is called inside \<^verbatim>\<open>try\<close> blocks that catch
  \<^verbatim>\<open>JSONDecodeError\<close> and nothing else: any other exception it raises ends the run.
  The second call stands behind the line about the fixed escapes.
\<close>

definition parse_json_payload :: "env \<Rightarrow> string \<Rightarrow> event list \<times> (abort + pyval)" where
  "parse_json_payload e payload =
     (if payload = [] \<or> strip payload = [] then ([], Inr PNone)
      else case json_loads e payload of
        Inr v \<Rightarrow> ([], Inr v)
      | Inl (OtherError name) \<Rightarrow> ([], Inl (Uncaught name))
      | Inl (JSONDecodeError msg) \<Rightarrow>
          (case json_loads e (fixed_payload payload) of
             Inr v \<Rightarrow> ([print_color CYAN ''Fixed shell escapes in JSON payload''], Inr v)
           | Inl (OtherError name) \<Rightarrow>
               ([print_color CYAN ''Fixed shell escapes in JSON payload''], Inl (Uncaught name))
           | Inl (JSONDecodeError msg') \<Rightarrow>
               ([print_color CYAN ''Fixed shell escapes in JSON payload'',
                 print_color RED (''Error: Invalid JSON payload - '' @ msg'),
                 print_color YELLOW (''Original payload: '' @ payload),
                 print_color YELLOW (''Attempted fix: '' @ fixed_payload payload)],
                Inl (SysExit 1))))"

subsection \<open>File uploads\<close>

text \<open>
  The test that \<^verbatim>\<open>prepare_file_upload\<close> and \<^verbatim>\<open>print_verbose_request\<close> both
  make on an item of the payload: is the value to be read as the path of a file.
\<close>

fun file_like :: "string \<Rightarrow> pyval \<Rightarrow> bool" where
  "file_like key (PStr v) =
     (lower key \<in> set [''archive'', ''file'', ''upload'', ''attachment'']
      \<or> startswith v ''~/''
      \<or> startswith v ''/''
      \<or> CHR ''.'' \<in> set (last (split CHR ''/'' v)))"
| "file_like key v = False"

text \<open>
  The loop of \<^verbatim>\<open>prepare_file_upload\<close> over the items left, with the number of files
  opened so far and the two dictionaries under construction. The file is opened after
  the line about it is printed.
\<close>

fun upload_items ::
  "env \<Rightarrow> (string \<times> pyval) list \<Rightarrow> nat \<Rightarrow> (string \<times> handle) list \<Rightarrow> (string \<times> pyval) list
   \<Rightarrow> event list \<times> (abort + (string \<times> handle) list \<times> (string \<times> pyval) list)"
where
  "upload_items e [] n files data = ([], Inr (files, data))"
| "upload_items e ((key, v) # items) n files data =
     (if file_like key v then
        (case v of
           PStr path \<Rightarrow>
             (let file_path = expanduser e path in
              if isfile e file_path then
                and_then
                  ([print_color CYAN (''Adding file upload: '' @ key @ '' -> '' @ file_path),
                    Opened n file_path], Inr ())
                  (\<lambda>u. upload_items e items (Suc n) (setitem files key (n, file_path)) data)
              else
                ([print_color RED (''Error: File not found: '' @ file_path)], Inl (SysExit 1)))
         | _ \<Rightarrow> upload_items e items n files (setitem data key v))
      else upload_items e items n files (setitem data key v))"

text \<open>
  \<^verbatim>\<open>payload.items()\<close> exists for a dictionary only; on any other value it raises
  \<^verbatim>\<open>AttributeError\<close>, which nothing catches.
\<close>

definition prepare_file_upload ::
  "env \<Rightarrow> pyval \<Rightarrow> event list \<times> (abort + (string \<times> handle) list \<times> (string \<times> pyval) list)"
where
  "prepare_file_upload e payload =
     (case payload of
        PDict items \<Rightarrow> upload_items e items 0 [] []
      | _ \<Rightarrow> ([], Inl (Uncaught ''AttributeError'')))"

definition determine_method :: "env \<Rightarrow> pyval \<Rightarrow> string option \<Rightarrow> string" where
  "determine_method e payload method =
     (if \<not> not_str method then str_upper e (the method)
      else if payload \<noteq> PNone then ''POST''
      else ''GET'')"

subsection \<open>Verbose output\<close>

text \<open>A value inside an f-string.\<close>

fun str_value :: "env \<Rightarrow> pyval \<Rightarrow> string" where
  "str_value e PNone = ''None''"
| "str_value e (PBool b) = (if b then ''True'' else ''False'')"
| "str_value e (PInt i) = str_int i"
| "str_value e (PStr s) = s"
| "str_value e v = repr e v"

definition size_str :: "env \<Rightarrow> nat \<Rightarrow> string" where
  "size_str e n = (if n > 1024 then kilo e n @ '' KB'' else str_nat n @ '' bytes'')"

text \<open>The line of \<^verbatim>\<open>print_verbose_request\<close> for one header: the token is masked.\<close>

definition request_header_line :: "string \<times> string \<Rightarrow> event" where
  "request_header_line h =
     (case h of (key, v) \<Rightarrow>
        if lower key = ''authorization'' \<and> startswith v ''Bearer '' then
          (let token = drop 7 v;
               masked_token =
                 (if length token > 12
                  then take 8 token @ ''...'' @ drop (length token - 4) token
                  else ''***'')
           in print (''  '' @ key @ '': Bearer '' @ masked_token))
        else print (''  '' @ key @ '': '' @ v))"

text \<open>The line of \<^verbatim>\<open>print_verbose_request\<close> for one item of a multipart payload.\<close>

definition request_item_line :: "env \<Rightarrow> string \<times> pyval \<Rightarrow> event" where
  "request_item_line e item =
     (case item of (key, v) \<Rightarrow>
        if file_like key v then
          (let file_path = expanduser e (str_value e v) in
           if isfile e file_path then
             print (''  '' @ key @ '': '' @ file_path @ '' ('' @ size_str e (getsize e file_path) @ '')'')
           else print (''  '' @ key @ '': '' @ str_value e v @ '' (FILE NOT FOUND)''))
        else print (''  '' @ key @ '': '' @ str_value e v))"

definition print_verbose_request ::
  "env \<Rightarrow> string \<Rightarrow> string \<Rightarrow> (string \<times> string) list \<Rightarrow> pyval \<Rightarrow> bool
   \<Rightarrow> event list \<times> (abort + unit)"
where
  "print_verbose_request e url method headers payload multipart =
     and_then
       ([print_color BLUE ''=== HTTP REQUEST DEBUG INFO ==='',
         print (''URL: '' @ url),
         print (''Method: '' @ method),
         print ''Timeout: 30 seconds'',
         print (''Content Type: '' @ (if multipart then ''multipart/form-data'' else ''application/json'')),
         print [],
         print_color YELLOW ''Headers:'']
        @ map request_header_line headers
        @ [print []], Inr ())
       (\<lambda>u. if truthy payload then
               (if multipart then
                  and_then
                    ([print_color YELLOW ''Request Body (Multipart Form Data):''], Inr ())
                    (\<lambda>u. case payload of
                            PDict items \<Rightarrow> (map (request_item_line e) items @ [print []], Inr ())
                          | _ \<Rightarrow> ([], Inl (Uncaught ''AttributeError'')))
                else
                  ([print_color YELLOW ''Request Body (JSON):'',
                    print (json_dumps e (Some 2) True payload),
                    print []], Inr ()))
             else ([print_color YELLOW ''Request Body: (empty)'', print []], Inr ()))"

definition print_verbose_response :: "env \<Rightarrow> response \<Rightarrow> event list" where
  "print_verbose_response e response =
     [print_color BLUE ''=== HTTP RESPONSE DEBUG INFO ==='',
      print (''Status Code: '' @ str_int (status_code response)),
      print (''Reason: '' @ reason response),
      print (''URL: '' @ resp_url response),
      print (''Response Time: '' @ elapsed_ms response @ ''ms''),
      print [],
      print_color YELLOW ''Response Headers:'']
     @ map (\<lambda>h. print (''  '' @ fst h @ '': '' @ snd h)) (resp_headers response)
     @ [print [],
        print (''Response Size: '' @ size_str e (length (resp_content response))),
        print []]"

subsection \<open>The request\<close>

text \<open>
  How \<^verbatim>\<open>make_request\<close> ends once \<^verbatim>\<open>requests.request\<close> is over: it returns the
  response; its handler for \<^verbatim>\<open>RequestException\<close> prints the failure and exits with 1;
  any other exception passes through.
\<close>

definition check_mark :: string where
  "check_mark = [CHR 0xE2, CHR 0x9C, CHR 0x93]"

definition ballot_x :: string where
  "ballot_x = [CHR 0xE2, CHR 0x9C, CHR 0x97]"

fun finish_request :: "outcome \<Rightarrow> event list \<times> (abort + response)" where
  "finish_request (Response r) = ([], Inr r)"
| "finish_request (RequestException msg) =
     ([print_color RED (ballot_x @ '' Request failed: '' @ msg)], Inl (SysExit 1))"
| "finish_request (OtherException name) = ([], Inl (Uncaught name))"

text \<open>
  In the multipart branch the files are opened by \<^verbatim>\<open>prepare_file_upload\<close>, before the
  inner \<^verbatim>\<open>try\<close>; the \<^verbatim>\<open>finally\<close> block closes every value of \<open>files\<close> whatever
  \<^verbatim>\<open>requests.request\<close> did.
\<close>

definition make_request ::
  "env \<Rightarrow> string \<Rightarrow> string \<Rightarrow> (string \<times> string) list \<Rightarrow> pyval \<Rightarrow> bool
   \<Rightarrow> event list \<times> (abort + response)"
where
  "make_request e url method headers payload multipart =
     (if method \<in> set [''POST'', ''PUT'', ''PATCH''] \<and> payload \<noteq> PNone then
        (if multipart then
           and_then (prepare_file_upload e payload)
             (\<lambda>upload_data.
                let files = fst upload_data;
                    data = snd upload_data;
                    multipart_headers = filter (\<lambda>h. lower (fst h) \<noteq> ''content-type'') headers;
                    req = \<lparr>req_method = method, req_url = url, req_headers = multipart_headers,
                           req_body = MultipartBody files data, req_timeout = 30\<rparr>;
                    out = requests_request e req
                in and_then
                     (Sent req out # map (\<lambda>f. Closed (fst (snd f))) files, Inr ())
                     (\<lambda>u. finish_request out))
         else
           (let req = \<lparr>req_method = method, req_url = url, req_headers = headers,
                       req_body = JsonBody payload, req_timeout = 30\<rparr>;
                out = requests_request e req
            in and_then ([Sent req out], Inr ()) (\<lambda>u. finish_request out)))
      else
        (let req = \<lparr>req_method = method, req_url = url, req_headers = headers,
                    req_body = NoBody, req_timeout = 30\<rparr>;
             out = requests_request e req
         in and_then ([Sent req out], Inr ()) (\<lambda>u. finish_request out)))"

subsection \<open>The response\<close>

text \<open>
  \<^verbatim>\<open>response.headers.get(name, default)\<close>: the names of headers are compared without
  regard to case.
\<close>

fun header_get :: "(string \<times> string) list \<Rightarrow> string \<Rightarrow> string \<Rightarrow> string" where
  "header_get [] name dflt = dflt"
| "header_get ((k, v) # hs) name dflt =
     (if lower k = lower name then v else header_get hs name dflt)"

definition status_banner :: "int \<Rightarrow> event" where
  "status_banner code =
     (if 200 \<le> code \<and> code < 300 then
        print_color GREEN (check_mark @ '' Success (HTTP '' @ str_int code @ '')'')
      else if 400 \<le> code \<and> code < 500 then
        print_color RED (ballot_x @ '' Client Error (HTTP '' @ str_int code @ '')'')
      else if 500 \<le> code \<and> code < 600 then
        print_color RED (ballot_x @ '' Server Error (HTTP '' @ str_int code @ '')'')
      else
        print_color YELLOW (''! Unexpected Status (HTTP '' @ str_int code @ '')''))"

text \<open>
  \<^verbatim>\<open>response.json()\<close> is called inside a \<^verbatim>\<open>try\<close> block that catches
  \<^verbatim>\<open>JSONDecodeError\<close> and nothing else: any other exception it raises ends the run,
  after the banner and the line \<^verbatim>\<open>Response:\<close> are printed.
\<close>

definition format_response ::
  "env \<Rightarrow> response \<Rightarrow> bool \<Rightarrow> bool \<Rightarrow> event list \<times> (abort + unit)"
where
  "format_response e response raw_output verbose =
     and_then ((if verbose then print_verbose_response e response else []), Inr ())
       (\<lambda>u. if raw_output then ([Print (resp_text response)], Inr ())
             else
               and_then ([status_banner (status_code response)], Inr ())
                 (\<lambda>u. let content = strip (resp_text response) in
                       if content = [] then
                         (if 200 \<le> status_code response \<and> status_code response < 300
                          then ([print_color YELLOW ''Success but no response body received''],
                                Inr ())
                          else ([print_color YELLOW ''No response body received''], Inr ()))
                       else
                         and_then ([print (NL # ''Response:'')], Inr ())
                           (\<lambda>u. let content_type =
                                       lower (header_get (resp_headers response)
                                                ''content-type'' [])
                                 in if contains content_type ''application/json'' then
                                      (case resp_json response of
                                         Inr json_data \<Rightarrow>
                                           ([print (json_dumps e (Some 2) False json_data)],
                                            Inr ())
                                       | Inl (JSONDecodeError msg) \<Rightarrow>
                                           ([print_color YELLOW
                                               ''Response claims to be JSON but is not valid JSON:'',
                                             print content], Inr ())
                                       | Inl (OtherError name) \<Rightarrow> ([], Inl (Uncaught name)))
                                    else if contains content_type ''text/html'' then
                                      ([print_color YELLOW ''HTML Response (parsed):'',
                                        print (html_text e content)], Inr ())
                                    else
                                      ((if content_type \<noteq> []
                                        then [print_color YELLOW
                                                (''Content-Type: '' @ content_type)]
                                        else [])
                                       @ [print content], Inr ()))))"

subsection \<open>The program\<close>

text \<open>
  \<^verbatim>\<open>if flag in args: ...; args.remove(flag)\<close>: the first occurrence of the flag is
  removed, a second one stays among the arguments.
\<close>

definition take_flag :: "string \<Rightarrow> bool \<times> string list \<Rightarrow> bool \<times> string list" where
  "take_flag flag st =
     (if flag \<in> set (snd st) then (True, remove1 flag (snd st)) else st)"

text \<open>What \<^verbatim>\<open>main\<close> prints before the request.\<close>

definition request_info ::
  "env \<Rightarrow> bool \<Rightarrow> bool \<Rightarrow> string \<Rightarrow> string \<Rightarrow> (string \<times> string) list \<Rightarrow> pyval \<Rightarrow> bool
   \<Rightarrow> event list \<times> (abort + unit)"
where
  "request_info e verbose raw_output url method headers payload multipart =
     (if verbose then print_verbose_request e url method headers payload multipart
      else if \<not> raw_output then
        ([print_color BLUE (''Making '' @ method @ '' request to: '' @ url)]
         @ (if multipart then [print_color CYAN ''Content-Type: multipart/form-data''] else [])
         @ (if truthy payload
            then [print_color YELLOW (''Payload: '' @ json_dumps e None True payload)]
            else [])
         @ [print []], Inr ())
      else ([], Inr ()))"

text \<open>
  The first lines of \<^verbatim>\<open>main\<close>: the flags are taken out of the arguments. The result
  is \<open>(raw_output, verbose, multipart, args)\<close>.
\<close>

definition scan_flags :: "string list \<Rightarrow> bool \<times> bool \<times> bool \<times> string list" where
  "scan_flags argv =
     (let r = take_flag ''--raw'' (take_flag ''-r'' (False, argv));
          v = take_flag ''--verbose'' (take_flag ''-v'' (False, snd r));
          m = take_flag ''--multipart'' (take_flag ''-m'' (False, snd v))
      in (fst r, fst v, fst m, snd m))"

text \<open>
  The rest of \<^verbatim>\<open>main\<close>, from \<^verbatim>\<open>validate_environment()\<close> on, once the endpoint,
  the payload and the method are taken from the arguments.
\<close>

definition run_request ::
  "env \<Rightarrow> bool \<Rightarrow> bool \<Rightarrow> bool \<Rightarrow> string \<Rightarrow> string \<Rightarrow> string option
   \<Rightarrow> event list \<times> (abort + unit)"
where
  "run_request e raw_output verbose multipart endpoint json_payload_str http_method =
     and_then (validate_environment e)
       (\<lambda>cred.
          let base_url = fst cred;
              token = snd cred;
              url = build_url base_url endpoint
          in and_then (parse_json_payload e json_payload_str)
               (\<lambda>payload.
                  let method = determine_method e payload http_method;
                      headers =
                        [(''Authorization'', ''Bearer '' @ token),
                         (''Accept'', ''application/json'')]
                        @ (if \<not> multipart then [(''Content-Type'', ''application/json'')] else [])
                  in and_then
                       (request_info e verbose raw_output url method headers payload multipart)
                       (\<lambda>u. and_then
                              (make_request e url method headers payload multipart)
                              (\<lambda>response.
                                 and_then (format_response e response raw_output verbose)
                                   (\<lambda>u. ([],
                                         Inl (SysExit
                                               (if 200 \<le> status_code response
                                                   \<and> status_code response < 300
                                                then 0 else 1))))))))"

text \<open>
  \<open>argv\<close> is \<^verbatim>\<open>sys.argv[1:]\<close>. The result is how the process ends; \<open>exit_code\<close> gives
  its exit status.
\<close>

definition main :: "env \<Rightarrow> string list \<Rightarrow> event list \<times> (abort + unit)" where
  "main e argv =
     (case scan_flags argv of
        (raw_output, verbose, multipart, args) \<Rightarrow>
          if length args = 0 \<or> hd args \<in> set [''-h'', ''--help''] then
            (show_usage, Inl (SysExit 0))
          else if length args < 1 then
            (print_color RED ''Error: Missing endpoint argument'' # show_usage, Inl (SysExit 1))
          else
            run_request e raw_output verbose multipart
              (args ! 0)
              (if length args > 1 then args ! 1 else [])
              (if length args > 2 then Some (args ! 2) else None))"

subsection \<open>A JSON decoder for concrete runs\<close>

text \<open>
  The theorems below hold for every \<open>json_loads\<close>. Where a run on a concrete command line
  is computed, \<open>json_loads\<close> is the decoder of this section: the JSON grammar as
  \<^verbatim>\<open>json.loads\<close> reads it (objects, arrays, strings with the one-letter escapes,
  integers, \<^verbatim>\<open>true\<close>, \<^verbatim>\<open>false\<close>, \<^verbatim>\<open>null\<close>, whitespace between the tokens;
  a repeated key keeps its first place and its last value). An integer of more than
  4300 digits, where \<^verbatim>\<open>json.loads\<close> comes to convert it, raises \<^verbatim>\<open>ValueError\<close>.
  Outside the embedding, and rejected here, are floating-point numbers (a fraction, an
  exponent, \<^verbatim>\<open>NaN\<close>, the infinities) and \<^verbatim>\<open>\u\<close> escapes. The message of a decode
  error is not reproduced, nor is the recursion limit of the interpreter.
\<close>

datatype token =
    TLBrace | TRBrace | TLBracket | TRBracket | TColon | TComma
  | TString string | TInt int | TLongInt | TTrue | TFalse | TNull | TBad

fun unescape :: "char \<Rightarrow> char option" where
  "unescape c =
     (if c = DQ then Some DQ
      else if c = backslash then Some backslash
      else if c = CHR ''/'' then Some CHR ''/''
      else if c = CHR ''b'' then Some (CHR 0x08)
      else if c = CHR ''f'' then Some (CHR 0x0C)
      else if c = CHR ''n'' then Some (CHR 0x0A)
      else if c = CHR ''r'' then Some (CHR 0x0D)
      else if c = CHR ''t'' then Some (CHR 0x09)
      else None)"

text \<open>The string that starts behind an opening quote, and what follows its closing quote.\<close>

fun scanstring :: "string \<Rightarrow> (string \<times> string) option" where
  "scanstring [] = None"
| "scanstring [c] = (if c = DQ then Some ([], []) else None)"
| "scanstring (c # d # cs) =
     (if c = DQ then Some ([], d # cs)
      else if c = backslash then
        (case unescape d of
           None \<Rightarrow> None
         | Some x \<Rightarrow> map_option (\<lambda>r. (x # fst r, snd r)) (scanstring cs))
      else if (of_char c :: nat) < 32 then None
      else map_option (\<lambda>r. (c # fst r, snd r)) (scanstring (d # cs)))"

definition isdigit :: "char \<Rightarrow> bool" where
  "isdigit c = (let n = (of_char c :: nat) in 48 \<le> n \<and> n \<le> 57)"

definition digits_value :: "string \<Rightarrow> int" where
  "digits_value ds = foldl (\<lambda>a d. 10 * a + (int (of_char d) - 48)) 0 ds"

text \<open>
  An integer at the head of the text: an optional minus sign, then a single zero or a
  run of digits that starts with another digit. A fraction or an exponent behind it
  makes a floating-point number. The token of a run of more than 4300 digits is
  \<open>TLongInt\<close>.
\<close>

definition scan_digits :: "bool \<Rightarrow> string \<Rightarrow> (token \<times> string) option" where
  "scan_digits negative s =
     (case s of
        [] \<Rightarrow> None
      | c # cs \<Rightarrow>
          if \<not> isdigit c then None
          else (let ds = (if c = CHR ''0'' then [c] else takeWhile isdigit s);
                    rest = drop (length ds) s
                in if rest \<noteq> [] \<and> hd rest \<in> set ''.eE'' then None
                   else if length ds > 4300 then Some (TLongInt, rest)
                   else Some (TInt (if negative then - digits_value ds else digits_value ds),
                              rest)))"

definition scan_int :: "string \<Rightarrow> (token \<times> string) option" where
  "scan_int s =
     (case s of
        [] \<Rightarrow> None
      | c # cs \<Rightarrow> if c = CHR ''-'' then scan_digits True cs else scan_digits False s)"

text \<open>The tokens of a text, up to the first place that starts no token (\<open>TBad\<close>).\<close>

function tokenize :: "string \<Rightarrow> token list" where
  "tokenize [] = []"
| "tokenize (c # cs) =
     (if c \<in> set [CHR '' '', CHR 0x09, CHR 0x0A, CHR 0x0D] then tokenize cs
      else if c = CHR ''{'' then TLBrace # tokenize cs
      else if c = CHR ''}'' then TRBrace # tokenize cs
      else if c = CHR ''['' then TLBracket # tokenize cs
      else if c = CHR '']'' then TRBracket # tokenize cs
      else if c = CHR '':'' then TColon # tokenize cs
      else if c = CHR '','' then TComma # tokenize cs
      else if c = DQ then
        (case scanstring cs of
           None \<Rightarrow> [TBad]
         | Some r \<Rightarrow> TString (fst r) # tokenize (snd r))
      else if startswith (c # cs) ''true'' then TTrue # tokenize (drop 3 cs)
      else if startswith (c # cs) ''false'' then TFalse # tokenize (drop 4 cs)
      else if startswith (c # cs) ''null'' then TNull # tokenize (drop 3 cs)
      else
        (case scan_int (c # cs) of
           None \<Rightarrow> [TBad]
         | Some r \<Rightarrow> fst r # tokenize (snd r)))"
  by pat_completeness auto
termination
proof (relation "measure length")
  have string_shorter: "scanstring s = Some r \<Longrightarrow> length (snd r) < length s" for s r
    by (induction s arbitrary: r rule: scanstring.induct)
       (fastforce split: if_splits option.splits)+
  have digits_shorter: "scan_digits n s = Some r \<Longrightarrow> length (snd r) < length s" for n s r
    by (cases s) (auto simp: scan_digits_def Let_def split: if_splits)
  have int_shorter: "scan_int s = Some r \<Longrightarrow> length (snd r) < length s" for s r
    by (cases s) (auto simp: scan_int_def split: if_splits dest!: digits_shorter)
  {
    fix c :: char and cs :: string and r :: "string \<times> string"
    assume "scanstring cs = Some r"
    then show "(snd r, c # cs) \<in> measure length"
      using string_shorter [of cs r] by simp
  }
  {
    fix c :: char and cs :: string and r :: "token \<times> string"
    assume "scan_int (c # cs) = Some r"
    then show "(snd r, c # cs) \<in> measure length"
      using int_shorter [of "c # cs" r] by simp
  }
qed auto

text \<open>
  The parser reads the tokens from left to right. It keeps the containers that are still
  open, innermost first, and knows what may come next.
\<close>

datatype frame =
    InList "pyval list"
  | InDict "(string \<times> pyval) list"
  | InDictKey "(string \<times> pyval) list" string

datatype phase = Value | ValueOrEnd | KeyOrEnd | Key | Colon | SepOrEnd | Done pyval

text \<open>A complete value goes into the innermost open container, or is the result.\<close>

fun put :: "pyval \<Rightarrow> frame list \<Rightarrow> (phase \<times> frame list) option" where
  "put v [] = Some (Done v, [])"
| "put v (InList xs # st) = Some (SepOrEnd, InList (xs @ [v]) # st)"
| "put v (InDictKey kvs k # st) = Some (SepOrEnd, InDict (setitem kvs k v) # st)"
| "put v (InDict kvs # st) = None"

fun close_list :: "frame list \<Rightarrow> (phase \<times> frame list) option" where
  "close_list (InList xs # st) = put (PList xs) st"
| "close_list st = None"

fun close_dict :: "frame list \<Rightarrow> (phase \<times> frame list) option" where
  "close_dict (InDict kvs # st) = put (PDict kvs) st"
| "close_dict st = None"

fun open_key :: "string \<Rightarrow> frame list \<Rightarrow> (phase \<times> frame list) option" where
  "open_key k (InDict kvs # st) = Some (Colon, InDictKey kvs k # st)"
| "open_key k st = None"

fun accept_value :: "token \<Rightarrow> frame list \<Rightarrow> (phase \<times> frame list) option" where
  "accept_value (TString s) st = put (PStr s) st"
| "accept_value (TInt i) st = put (PInt i) st"
| "accept_value TTrue st = put (PBool True) st"
| "accept_value TFalse st = put (PBool False) st"
| "accept_value TNull st = put PNone st"
| "accept_value TLBracket st = Some (ValueOrEnd, InList [] # st)"
| "accept_value TLBrace st = Some (KeyOrEnd, InDict [] # st)"
| "accept_value t st = None"

fun parse_step :: "phase \<times> frame list \<Rightarrow> token \<Rightarrow> (phase \<times> frame list) option" where
  "parse_step (Value, st) t = accept_value t st"
| "parse_step (ValueOrEnd, st) t = (if t = TRBracket then close_list st else accept_value t st)"
| "parse_step (KeyOrEnd, st) (TString k) = open_key k st"
| "parse_step (KeyOrEnd, st) TRBrace = close_dict st"
| "parse_step (Key, st) (TString k) = open_key k st"
| "parse_step (Colon, st) TColon = Some (Value, st)"
| "parse_step (SepOrEnd, InList xs # st) TComma = Some (Value, InList xs # st)"
| "parse_step (SepOrEnd, InDict kvs # st) TComma = Some (Key, InDict kvs # st)"
| "parse_step (SepOrEnd, st) TRBracket = close_list st"
| "parse_step (SepOrEnd, st) TRBrace = close_dict st"
| "parse_step s t = None"

text \<open>
  The tokens are taken one by one, so the first failure decides: a token that cannot
  stand where it stands is a decode error, but a long integer where a value may stand is
  converted first, which raises \<^verbatim>\<open>ValueError\<close>.
\<close>

fun parse_tokens ::
  "phase \<times> frame list \<Rightarrow> token list \<Rightarrow> load_error + phase \<times> frame list"
where
  "parse_tokens s [] = Inr s"
| "parse_tokens s (t # ts) =
     (if t = TLongInt \<and> (fst s = Value \<or> fst s = ValueOrEnd) then Inl (OtherError ''ValueError'')
      else case parse_step s t of
        None \<Rightarrow> Inl (JSONDecodeError ''invalid JSON'')
      | Some s' \<Rightarrow> parse_tokens s' ts)"

definition json_decode :: "string \<Rightarrow> load_error + pyval" where
  "json_decode s =
     (case parse_tokens (Value, []) (tokenize s) of
        Inl err \<Rightarrow> Inl err
      | Inr (Done v, []) \<Rightarrow> Inr v
      | Inr unfinished \<Rightarrow> Inl (JSONDecodeError ''invalid JSON''))"

subsection \<open>Reading a run\<close>

text \<open>The HTTP calls of a run, and the handles it opened and closed, in order.\<close>

fun sent :: "event list \<Rightarrow> (request \<times> outcome) list" where
  "sent [] = []"
| "sent (Sent r out # es) = (r, out) # sent es"
| "sent (e # es) = sent es"

fun opened :: "event list \<Rightarrow> nat list" where
  "opened [] = []"
| "opened (Opened n p # es) = n # opened es"
| "opened (e # es) = opened es"

fun closed :: "event list \<Rightarrow> nat list" where
  "closed [] = []"
| "closed (Closed n # es) = n # closed es"
| "closed (e # es) = closed es"

text \<open>A stretch of a run in which nothing happens but printing.\<close>

fun only_prints :: "event list \<Rightarrow> bool" where
  "only_prints [] = True"
| "only_prints (Print s # es) = only_prints es"
| "only_prints (e # es) = False"

text \<open>
  The exit status that \<^verbatim>\<open>main\<close> derives from the status code of a response.
\<close>

definition status_exit :: "response \<Rightarrow> int" where
  "status_exit response =
     (if 200 \<le> status_code response \<and> status_code response < 300 then 0 else 1)"

subsection \<open>Shell escapes, as the specification describes them\<close>

text \<open>
  A payload into which shell escapes have been introduced: a backslash is put in front
  of the characters at the flagged positions, where the character is one of those the
  repair pass knows.
\<close>

definition shell_escaped :: string where
  \<open>shell_escaped = '' ()&[]{};><|$`'' @ [SQ] @ ''"''\<close>

fun escape_at :: "string \<Rightarrow> bool list \<Rightarrow> string \<Rightarrow> string" where
  "escape_at known fs [] = []"
| "escape_at known [] (c # cs) = c # cs"
| "escape_at known (f # fs) (c # cs) =
     (if f \<and> c \<in> set known then backslash # c # escape_at known fs cs
      else c # escape_at known fs cs)"

definition with_escapes :: "bool list \<Rightarrow> string \<Rightarrow> string" where
  "with_escapes fs s = escape_at shell_escaped fs s"


text \<open>
  A string in which no backslash stands directly in front of one of the characters the
  repair pass knows: its backslashes, if it has any, belong to escapes such as
  \<^verbatim>\<open>\n\<close> or \<^verbatim>\<open>\\\<close>.
\<close>

fun unescaped :: "string \<Rightarrow> string \<Rightarrow> bool" where
  "unescaped known [] = True"
| "unescaped known [c] = True"
| "unescaped known (c # d # s) =
     (\<not> (c = backslash \<and> d \<in> set known) \<and> unescaped known (d # s))"

definition no_shell_escape :: "string \<Rightarrow> bool" where
  "no_shell_escape s = unescaped shell_escaped s"
subsection \<open>An environment for concrete runs\<close>

text \<open>
  Both variables are set, \<^verbatim>\<open>str.upper\<close> is \<open>upper\<close> (the command lines below are
  ASCII), the JSON decoder is the one above, the home directory is
  \<^verbatim>\<open>/home/cook\<close>; the files that exist and the behaviour of the server are
  arguments. The texts that \<^verbatim>\<open>json.dumps\<close>, \<^verbatim>\<open>repr\<close> and the number formatting
  produce are left empty: no statement below is about them.
\<close>

definition example_env :: "(string \<Rightarrow> bool) \<Rightarrow> (request \<Rightarrow> outcome) \<Rightarrow> env" where
  "example_env files server =
     \<lparr>getenv = map_of [(''MEALIE_URL'', ''https://mealie.example/''),
                       (''MEALIE_TOKEN'', ''0123456789abcdef'')],
      str_upper = upper,
      json_loads = json_decode,
      json_dumps = (\<lambda>indent ensure_ascii v. []),
      repr = (\<lambda>v. []),
      expanduser = (\<lambda>p. if p = ''~'' \<or> startswith p ''~/'' then ''/home/cook'' @ drop 1 p else p),
      isfile = files,
      getsize = (\<lambda>p. 0),
      kilo = (\<lambda>n. []),
      requests_request = server,
      html_text = (\<lambda>page. page)\<rparr>"

text \<open>A response with a status code, a content type and a body.\<close>

definition reply :: "int \<Rightarrow> string \<Rightarrow> string \<Rightarrow> response" where
  "reply code content_type body =
     \<lparr>status_code = code, reason = [], resp_url = [],
      resp_headers = [(''Content-Type'', content_type)],
      resp_text = body, resp_content = body, resp_json = json_decode body,
      elapsed_ms = ''0.00''\<rparr>"

section \<open>Properties\<close>

subsection \<open>Sequencing and printing\<close>

lemma fst_and_then:
  "fst (and_then m f) = (case snd m of Inl a \<Rightarrow> fst m | Inr x \<Rightarrow> fst m @ fst (f x))"
  by (cases m; cases "snd m") (auto simp: and_then_def split: prod.splits)

lemma snd_and_then:
  "snd (and_then m f) = (case snd m of Inl a \<Rightarrow> Inl a | Inr x \<Rightarrow> snd (f x))"
  by (cases m; cases "snd m") (auto simp: and_then_def split: prod.splits)

lemma sent_append [simp]: "sent (xs @ ys) = sent xs @ sent ys"
  by (induction xs rule: sent.induct) auto

lemma opened_append [simp]: "opened (xs @ ys) = opened xs @ opened ys"
  by (induction xs rule: opened.induct) auto

lemma closed_append [simp]: "closed (xs @ ys) = closed xs @ closed ys"
  by (induction xs rule: closed.induct) auto

lemma stdout_append [simp]: "stdout (xs @ ys) = stdout xs @ stdout ys"
  by (induction xs rule: stdout.induct) auto

lemma only_prints_append [simp]: "only_prints (xs @ ys) = (only_prints xs \<and> only_prints ys)"
  by (induction xs rule: only_prints.induct) auto

lemma only_prints_print [simp]:
  "only_prints (print s # es) = only_prints es"
  "only_prints (print_color c s # es) = only_prints es"
  by (simp_all add: print_def print_color_def)

lemma only_prints_silent:
  "only_prints es \<Longrightarrow> sent es = [] \<and> opened es = [] \<and> closed es = []"
  by (induction es rule: only_prints.induct) auto

lemma only_prints_map: "(\<And>x. \<exists>s. f x = Print s) \<Longrightarrow> only_prints (map f xs)"
proof (induction xs)
  case Nil
  then show ?case by simp
next
  case (Cons x xs)
  from Cons.prems obtain s where "f x = Print s" by blast
  with Cons show ?case by simp
qed

lemma only_prints_usage: "only_prints show_usage"
  by (simp add: show_usage_def)

lemma only_prints_validate: "only_prints (fst (validate_environment e))"
  by (simp add: validate_environment_def Let_def)

lemma only_prints_parse: "only_prints (fst (parse_json_payload e p))"
  by (simp add: parse_json_payload_def split: sum.splits load_error.splits)

lemma only_prints_header_lines: "only_prints (map request_header_line hs)"
  by (rule only_prints_map) (auto simp: request_header_line_def print_def Let_def split: prod.splits)

lemma only_prints_item_lines: "only_prints (map (request_item_line e) items)"
  by (rule only_prints_map) (auto simp: request_item_line_def print_def Let_def split: prod.splits)

lemma only_prints_verbose_request:
  "only_prints (fst (print_verbose_request e u m hs payload multipart))"
  by (cases payload)
     (simp_all add: print_verbose_request_def fst_and_then only_prints_header_lines
        only_prints_item_lines)

lemma only_prints_request_info:
  "only_prints (fst (request_info e verbose raw_output u m hs payload multipart))"
  by (simp add: request_info_def only_prints_verbose_request)

lemma only_prints_verbose_response: "only_prints (print_verbose_response e r)"
proof -
  have "only_prints (map (\<lambda>h. print (''  '' @ fst h @ '': '' @ snd h)) (resp_headers r))"
    by (rule only_prints_map) (simp add: print_def)
  then show ?thesis by (simp add: print_verbose_response_def)
qed

lemma only_prints_format: "only_prints (fst (format_response e r raw_output verbose))"
  by (simp add: format_response_def fst_and_then only_prints_verbose_response
      status_banner_def Let_def split: sum.splits load_error.splits)

text \<open>
  A response whose body is blank, or that does not declare JSON, or whose
  \<^verbatim>\<open>json()\<close> returns or raises \<^verbatim>\<open>JSONDecodeError\<close>, is displayed to the end.
\<close>

lemma format_response_returns:
  "snd (format_response e r raw_output verbose) = Inr ()
   \<longleftrightarrow> (raw_output \<or> strip (resp_text r) = []
        \<or> \<not> contains (lower (header_get (resp_headers r) ''content-type'' []))
                ''application/json''
        \<or> (\<forall>name. resp_json r \<noteq> Inl (OtherError name)))"
  by (auto simp: format_response_def snd_and_then Let_def split: sum.splits load_error.splits)

lemma only_prints_finish: "only_prints (fst (finish_request out))"
  by (cases out) simp_all

subsection \<open>The upload loop\<close>

lemma setitem_new: "k \<notin> fst ` set d \<Longrightarrow> setitem d k v = d @ [(k, v)]"
  by (induction d) auto

lemma upload_items_data:
  "\<not> file_like key v \<Longrightarrow>
   upload_items e ((key, v) # items) n files data = upload_items e items n files (setitem data key v)"
  by simp

lemma upload_items_file:
  "file_like key (PStr path) \<Longrightarrow> isfile e (expanduser e path) \<Longrightarrow>
   upload_items e ((key, PStr path) # items) n files data =
     (print_color CYAN (''Adding file upload: '' @ key @ '' -> '' @ expanduser e path)
      # Opened n (expanduser e path)
      # fst (upload_items e items (Suc n) (setitem files key (n, expanduser e path)) data),
      snd (upload_items e items (Suc n) (setitem files key (n, expanduser e path)) data))"
  by (simp add: Let_def and_then_def split: prod.splits)

lemma upload_items_nofile:
  "file_like key (PStr path) \<Longrightarrow> \<not> isfile e (expanduser e path) \<Longrightarrow>
   upload_items e ((key, PStr path) # items) n files data =
     ([print_color RED (''Error: File not found: '' @ expanduser e path)], Inl (SysExit 1))"
  by (simp add: Let_def)

lemma file_like_str: "file_like key v \<Longrightarrow> \<exists>path. v = PStr path"
  by (cases v) auto

lemma upload_items_quiet:
  "sent (fst (upload_items e items n files data)) = []
   \<and> closed (fst (upload_items e items n files data)) = []"
proof (induction items arbitrary: n files data)
  case Nil
  then show ?case by simp
next
  case (Cons x items)
  obtain key v where x: "x = (key, v)" by (cases x)
  show ?case
  proof (cases "file_like key v")
    case False
    then show ?thesis using Cons x by (simp del: upload_items.simps add: upload_items_data)
  next
    case True
    then obtain path where v: "v = PStr path" using file_like_str by blast
    show ?thesis
      using Cons True x v
      by (cases "isfile e (expanduser e path)")
         (simp_all del: upload_items.simps
            add: upload_items_file upload_items_nofile print_color_def print_def)
  qed
qed

lemma upload_items_ok:
  assumes "upload_items e items n files data = (ev, Inr (files', data'))"
    and "distinct (map fst items)"
    and "fst ` set files \<inter> fst ` set items = {}"
    and "fst ` set data \<inter> fst ` set items = {}"
  shows "map fst files' = map fst files @ map fst (filter (\<lambda>kv. file_like (fst kv) (snd kv)) items)
    \<and> map (\<lambda>f. fst (snd f)) files' = map (\<lambda>f. fst (snd f)) files @ opened ev
    \<and> map (\<lambda>f. snd (snd f)) files' = map (\<lambda>f. snd (snd f)) files
          @ map (\<lambda>kv. expanduser e (str_value e (snd kv)))
              (filter (\<lambda>kv. file_like (fst kv) (snd kv)) items)
    \<and> opened ev = [n ..< n + length (filter (\<lambda>kv. file_like (fst kv) (snd kv)) items)]
    \<and> data' = data @ filter (\<lambda>kv. \<not> file_like (fst kv) (snd kv)) items"
  using assms
proof (induction items arbitrary: n files data ev)
  case Nil
  then show ?case by simp
next
  case (Cons x items)
  obtain key v where x: "x = (key, v)" by (cases x)
  have rest: "distinct (map fst items)" and fresh: "key \<notin> fst ` set items"
    using Cons.prems(2) x by auto
  show ?case
  proof (cases "file_like key v")
    case False
    have new: "setitem data key v = data @ [(key, v)]"
      using Cons.prems(4) x by (intro setitem_new) auto
    have run: "upload_items e items n files (data @ [(key, v)]) = (ev, Inr (files', data'))"
      using Cons.prems(1) False new x by (simp del: upload_items.simps add: upload_items_data)
    have "fst ` set files \<inter> fst ` set items = {}"
      and "fst ` set (data @ [(key, v)]) \<inter> fst ` set items = {}"
      using Cons.prems(3,4) fresh x by auto
    from Cons.IH [OF run rest this]
    show ?thesis using False x by simp
  next
    case True
    then obtain path where v: "v = PStr path" using file_like_str by blast
    let ?fp = "expanduser e path"
    have ex: "isfile e ?fp"
      using Cons.prems(1) True v x
      by (cases "isfile e ?fp") (simp_all del: upload_items.simps add: upload_items_nofile)
    have new: "setitem files key (n, ?fp) = files @ [(key, (n, ?fp))]"
      using Cons.prems(3) x by (intro setitem_new) auto
    obtain ev' where ev: "ev = print_color CYAN (''Adding file upload: '' @ key @ '' -> '' @ ?fp)
                               # Opened n ?fp # ev'"
      and run: "upload_items e items (Suc n) (files @ [(key, (n, ?fp))]) data
                  = (ev', Inr (files', data'))"
      using Cons.prems(1) True v x ex new
      by (simp del: upload_items.simps add: upload_items_file prod_eq_iff)
    have "fst ` set (files @ [(key, (n, ?fp))]) \<inter> fst ` set items = {}"
      and "fst ` set data \<inter> fst ` set items = {}"
      using Cons.prems(3,4) fresh x by auto
    from Cons.IH [OF run rest this]
    have IH: "map fst files' = map fst files @ key # map fst (filter (\<lambda>kv. file_like (fst kv) (snd kv)) items)"
      "map (\<lambda>f. fst (snd f)) files' = map (\<lambda>f. fst (snd f)) files @ n # opened ev'"
      "map (\<lambda>f. snd (snd f)) files' = map (\<lambda>f. snd (snd f)) files
          @ ?fp # map (\<lambda>kv. expanduser e (str_value e (snd kv)))
              (filter (\<lambda>kv. file_like (fst kv) (snd kv)) items)"
      "opened ev' = [Suc n ..< Suc n + length (filter (\<lambda>kv. file_like (fst kv) (snd kv)) items)]"
      "data' = data @ filter (\<lambda>kv. \<not> file_like (fst kv) (snd kv)) items"
      by simp_all
    have here: "filter (\<lambda>kv. file_like (fst kv) (snd kv)) (x # items)
                  = x # filter (\<lambda>kv. file_like (fst kv) (snd kv)) items"
      "filter (\<lambda>kv. \<not> file_like (fst kv) (snd kv)) (x # items)
         = filter (\<lambda>kv. \<not> file_like (fst kv) (snd kv)) items"
      using True x by simp_all
    have op: "opened ev = n # opened ev'"
      using ev by (simp add: print_color_def print_def)
    show ?thesis
      unfolding here op using IH x v by (simp del: upt_Suc add: upt_conv_Cons)
  qed
qed

lemma upload_items_missing:
  assumes "(key, PStr path) \<in> set items"
    and "file_like key (PStr path)"
    and "\<not> isfile e (expanduser e path)"
  shows "\<exists>key' path'.
           snd (upload_items e items n files data) = Inl (SysExit 1)
           \<and> (key', PStr path') \<in> set items
           \<and> file_like key' (PStr path')
           \<and> \<not> isfile e (expanduser e path')
           \<and> print_color RED (''Error: File not found: '' @ expanduser e path')
               \<in> set (fst (upload_items e items n files data))"
  using assms(1)
proof (induction items arbitrary: n files data)
  case Nil
  then show ?case by simp
next
  case (Cons x items)
  obtain k v where x: "x = (k, v)" by (cases x)
  let ?P = "\<lambda>its r key' path'. snd r = Inl (SysExit 1)
           \<and> (key', PStr path') \<in> set its
           \<and> file_like key' (PStr path')
           \<and> \<not> isfile e (expanduser e path')
           \<and> print_color RED (''Error: File not found: '' @ expanduser e path') \<in> set (fst r)"
  consider (data) "\<not> file_like k v"
    | (missing) p where "v = PStr p" "file_like k v" "\<not> isfile e (expanduser e p)"
    | (present) p where "v = PStr p" "file_like k v" "isfile e (expanduser e p)"
    using file_like_str by blast
  then show ?case
  proof cases
    case data
    then have "(key, PStr path) \<in> set items" using Cons.prems assms(2) x by auto
    from Cons.IH [OF this, of n files "setitem data k v"]
    obtain key' path' where "?P items (upload_items e items n files (setitem data k v)) key' path'"
      by blast
    then have "?P (x # items) (upload_items e (x # items) n files data) key' path'"
      using data x by (simp del: upload_items.simps add: upload_items_data)
    then show ?thesis by blast
  next
    case missing
    then have "?P (x # items) (upload_items e (x # items) n files data) k p"
      using x by (simp del: upload_items.simps add: upload_items_nofile)
    then show ?thesis by blast
  next
    case present
    then have "(key, PStr path) \<in> set items" using Cons.prems assms(3) x by auto
    from Cons.IH [OF this, of "Suc n" "setitem files k (n, expanduser e p)" data]
    obtain key' path' where
      "?P items (upload_items e items (Suc n) (setitem files k (n, expanduser e p)) data) key' path'"
      by blast
    then have "?P (x # items) (upload_items e (x # items) n files data) key' path'"
      using present x by (simp del: upload_items.simps add: upload_items_file)
    then show ?thesis by blast
  qed
qed

lemma same_key_same_value:
  "distinct (map fst xs) \<Longrightarrow> (k, v) \<in> set xs \<Longrightarrow> (k, v') \<in> set xs \<Longrightarrow> v = v'"
  by (induction xs) (auto simp: image_iff)

lemma file_like_iff:
  "file_like k v \<longleftrightarrow>
     (\<exists>s. v = PStr s
          \<and> (lower k \<in> {''archive'', ''file'', ''upload'', ''attachment''}
              \<or> startswith s ''~/'' \<or> startswith s ''/''
              \<or> CHR ''.'' \<in> set (last (split CHR ''/'' s))))"
  by (cases v) auto

subsection \<open>The shape of a run\<close>

lemma closes_quiet:
  "sent (map (\<lambda>f. Closed (fst (snd f))) files) = []
   \<and> stdout (map (\<lambda>f. Closed (fst (snd f))) files) = []
   \<and> opened (map (\<lambda>f. Closed (fst (snd f))) files) = []
   \<and> closed (map (\<lambda>f. Closed (fst (snd f))) files) = map (\<lambda>f. fst (snd f)) files"
  by (induction files) auto

lemma prepare_quiet:
  "sent (fst (prepare_file_upload e payload)) = []
   \<and> closed (fst (prepare_file_upload e payload)) = []"
  by (cases payload) (simp_all add: prepare_file_upload_def upload_items_quiet)

text \<open>The request that \<open>make_request\<close> hands to the transport, where it gets that far.\<close>

lemma make_request_shape:
  "(sent (fst (make_request e u m hs payload mp)) = []
      \<and> isl (snd (make_request e u m hs payload mp)))
   \<or> (\<exists>pre req closes.
         fst (make_request e u m hs payload mp)
           = pre @ Sent req (requests_request e req) # closes
               @ fst (finish_request (requests_request e req))
         \<and> snd (make_request e u m hs payload mp) = snd (finish_request (requests_request e req))
         \<and> sent pre = [] \<and> closed pre = []
         \<and> sent closes = [] \<and> stdout closes = [] \<and> opened closes = [])"
proof (cases "m \<in> set [''POST'', ''PUT'', ''PATCH''] \<and> payload \<noteq> PNone \<and> mp")
  case False
  then have "\<exists>req. make_request e u m hs payload mp
                 = ([Sent req (requests_request e req)] @ fst (finish_request (requests_request e req)),
                    snd (finish_request (requests_request e req)))"
    by (auto simp: make_request_def Let_def and_then_def split: prod.splits)
  then obtain req where "make_request e u m hs payload mp
                 = ([] @ Sent req (requests_request e req) # [] @ fst (finish_request (requests_request e req)),
                    snd (finish_request (requests_request e req)))"
    by auto
  then have "fst (make_request e u m hs payload mp)
           = [] @ Sent req (requests_request e req) # []
               @ fst (finish_request (requests_request e req))
         \<and> snd (make_request e u m hs payload mp) = snd (finish_request (requests_request e req))
         \<and> sent [] = [] \<and> closed [] = []
         \<and> sent [] = [] \<and> stdout [] = [] \<and> opened [] = []"
    by simp
  then show ?thesis by blast
next
  case True
  show ?thesis
  proof (cases "snd (prepare_file_upload e payload)")
    case (Inl a)
    then show ?thesis
      using True prepare_quiet [of e payload]
      by (simp add: make_request_def fst_and_then snd_and_then)
  next
    case (Inr up)
    define req where "req = \<lparr>req_method = m, req_url = u,
        req_headers = filter (\<lambda>h. lower (fst h) \<noteq> ''content-type'') hs,
        req_body = MultipartBody (fst up) (snd up), req_timeout = 30\<rparr>"
    have "fst (make_request e u m hs payload mp)
           = fst (prepare_file_upload e payload) @ Sent req (requests_request e req)
               # map (\<lambda>f. Closed (fst (snd f))) (fst up)
               @ fst (finish_request (requests_request e req))
         \<and> snd (make_request e u m hs payload mp) = snd (finish_request (requests_request e req))"
      using True Inr
      by (simp add: make_request_def fst_and_then snd_and_then Let_def req_def)
    then show ?thesis
      using prepare_quiet [of e payload] closes_quiet [of "fst up"] by blast
  qed
qed

text \<open>The last stage of a run: the response is displayed, then the process exits.\<close>

lemma fst_exit_stage: "fst (and_then m (\<lambda>u. ([], Inl a))) = fst m"
  by (cases m; cases "snd m") (auto simp: and_then_def)

lemma snd_exit_stage:
  "snd (and_then m (\<lambda>u. ([], Inl a))) = (case snd m of Inl b \<Rightarrow> Inl b | Inr u \<Rightarrow> Inl a)"
  by (cases m; cases "snd m") (auto simp: and_then_def)

lemma run_request_shape:
  fixes e raw_output verbose
  defines "after \<equiv> \<lambda>out. and_then (finish_request out)
             (\<lambda>response. and_then (format_response e response raw_output verbose)
                           (\<lambda>u. ([], Inl (SysExit (status_exit response)) :: abort + unit)))"
  shows "(sent (fst (run_request e raw_output verbose mp endpoint pstr meth)) = []
            \<and> isl (snd (run_request e raw_output verbose mp endpoint pstr meth)))
   \<or> (\<exists>pre req closes.
         fst (run_request e raw_output verbose mp endpoint pstr meth)
           = pre @ Sent req (requests_request e req) # closes
               @ fst (after (requests_request e req))
         \<and> snd (run_request e raw_output verbose mp endpoint pstr meth)
             = snd (after (requests_request e req))
         \<and> sent pre = [] \<and> closed pre = []
         \<and> sent closes = [] \<and> stdout closes = [] \<and> opened closes = [])"
proof -
  let ?R = "run_request e raw_output verbose mp endpoint pstr meth"
  let ?V = "validate_environment e"
  let ?P = "parse_json_payload e pstr"
  note silent = only_prints_silent
  show ?thesis
  proof (cases "snd ?V")
    case (Inl a)
    then show ?thesis
      using silent [OF only_prints_validate [of e]]
      by (simp add: run_request_def fst_and_then snd_and_then)
  next
    case V: (Inr cred)
    show ?thesis
    proof (cases "snd ?P")
      case (Inl a)
      then show ?thesis
        using V silent [OF only_prints_validate [of e]] silent [OF only_prints_parse [of e pstr]]
        by (simp add: run_request_def fst_and_then snd_and_then Let_def)
    next
      case P: (Inr payload)
      define u where "u = build_url (fst cred) endpoint"
      define m where "m = determine_method e payload meth"
      define hs where "hs = [(''Authorization'', ''Bearer '' @ snd cred),
                         (''Accept'', ''application/json'')]
                        @ (if \<not> mp then [(''Content-Type'', ''application/json'')] else [])"
      let ?I = "request_info e verbose raw_output u m hs payload mp"
      let ?M = "make_request e u m hs payload mp"
      note q = silent [OF only_prints_validate [of e]] silent [OF only_prints_parse [of e pstr]]
        silent [OF only_prints_request_info [of e verbose raw_output u m hs payload mp]]
      show ?thesis
      proof (cases "snd ?I")
        case (Inl a)
        then show ?thesis
          using q unfolding u_def m_def hs_def
          by (simp only: run_request_def Let_def fst_and_then snd_and_then V P Inl sum.case
                sent_append list.simps append_Nil2 sum.disc simp_thms)
      next
        case I: (Inr unit)
        have R: "fst ?R = fst ?V @ fst ?P @ fst ?I
                   @ (case snd ?M of Inl a \<Rightarrow> fst ?M
                      | Inr response \<Rightarrow>
                          fst ?M @ fst (format_response e response raw_output verbose))"
          "snd ?R = (case snd ?M of Inl a \<Rightarrow> Inl a
                      | Inr response \<Rightarrow>
                          (case snd (format_response e response raw_output verbose) of
                             Inl a \<Rightarrow> Inl a
                           | Inr u \<Rightarrow> Inl (SysExit (status_exit response))))"
          using I unfolding u_def m_def hs_def
          by (simp_all only: run_request_def Let_def fst_exit_stage snd_exit_stage
                fst_and_then snd_and_then V P sum.case
                status_exit_def append_assoc fst_conv snd_conv)
        from make_request_shape [of e u m hs payload mp]
        show ?thesis
        proof (elim disjE exE conjE)
          assume "sent (fst ?M) = []" "isl (snd ?M)"
          then show ?thesis
            using R q by (auto simp: isl_def)
        next
          fix pre req closes
          let ?out = "requests_request e req"
          assume M: "fst ?M = pre @ Sent req ?out # closes @ fst (finish_request ?out)"
            "snd ?M = snd (finish_request ?out)"
            and quiet: "sent pre = []" "closed pre = []" "sent closes = []" "stdout closes = []"
              "opened closes = []"
          have "fst ?R = (fst ?V @ fst ?P @ fst ?I @ pre) @ Sent req ?out # closes @ fst (after ?out)"
            "snd ?R = snd (after ?out)"
            using R M
            by (simp_all add: after_def fst_exit_stage snd_exit_stage fst_and_then snd_and_then
                  split: sum.splits)
          moreover have "sent (fst ?V @ fst ?P @ fst ?I @ pre) = []"
            "closed (fst ?V @ fst ?P @ fst ?I @ pre) = []"
            using q quiet by simp_all
          ultimately show ?thesis using quiet by blast
        qed
      qed
    qed
  qed
qed

lemma main_shape:
  fixes e argv
  defines "after \<equiv> \<lambda>out. and_then (finish_request out)
             (\<lambda>response. and_then (format_response e response (fst (scan_flags argv))
                                      (fst (snd (scan_flags argv))))
                           (\<lambda>u. ([], Inl (SysExit (status_exit response)) :: abort + unit)))"
  shows "(sent (fst (main e argv)) = [] \<and> isl (snd (main e argv)))
   \<or> (\<exists>pre req closes.
         fst (main e argv)
           = pre @ Sent req (requests_request e req) # closes @ fst (after (requests_request e req))
         \<and> snd (main e argv) = snd (after (requests_request e req))
         \<and> sent pre = [] \<and> closed pre = []
         \<and> sent closes = [] \<and> stdout closes = [] \<and> opened closes = [])"
proof -
  obtain raw_output verbose mp args where flags: "scan_flags argv = (raw_output, verbose, mp, args)"
    by (cases "scan_flags argv") auto
  show ?thesis
  proof (cases "length args = 0 \<or> hd args \<in> set [''-h'', ''--help'']")
    case True
    then have "main e argv = (show_usage, Inl (SysExit 0))"
      by (simp add: main_def flags)
    then show ?thesis
      using only_prints_silent [OF only_prints_usage] by simp
  next
    case False
    then have "main e argv = run_request e raw_output verbose mp (args ! 0)
              (if length args > 1 then args ! 1 else [])
              (if length args > 2 then Some (args ! 2) else None)"
      by (simp add: main_def flags)
    then show ?thesis
      unfolding after_def flags fst_conv snd_conv
      using run_request_shape [of e raw_output verbose mp "args ! 0"
              "if length args > 1 then args ! 1 else []"
              "if length args > 2 then Some (args ! 2) else None"]
      by simp
  qed
qed

lemma main_response:
  assumes "(req, Response resp) \<in> set (sent (fst (main e argv)))"
  shows "\<exists>pre closes.
           fst (main e argv)
             = pre @ Sent req (Response resp) # closes
                 @ fst (format_response e resp (fst (scan_flags argv))
                          (fst (snd (scan_flags argv))))
           \<and> snd (main e argv)
               = (case snd (format_response e resp (fst (scan_flags argv))
                              (fst (snd (scan_flags argv)))) of
                    Inl a \<Rightarrow> Inl a
                  | Inr u \<Rightarrow> Inl (SysExit (status_exit resp)))
           \<and> sent pre = [] \<and> closed pre = []
           \<and> sent closes = [] \<and> stdout closes = [] \<and> opened closes = []"
  using main_shape [of e argv]
proof (elim disjE exE conjE)
  assume "sent (fst (main e argv)) = []"
  then show ?thesis using assms by simp
next
  fix pre req' closes
  let ?out = "requests_request e req'"
  let ?after = "and_then (finish_request ?out)
             (\<lambda>response. and_then (format_response e response (fst (scan_flags argv))
                                      (fst (snd (scan_flags argv))))
                           (\<lambda>u. ([], Inl (SysExit (status_exit response)) :: abort + unit)))"
  assume M: "fst (main e argv) = pre @ Sent req' ?out # closes @ fst ?after"
    "snd (main e argv) = snd ?after"
    and quiet: "sent pre = []" "closed pre = []" "sent closes = []" "stdout closes = []"
      "opened closes = []"
  have "sent (fst ?after) = []"
    using only_prints_silent [OF only_prints_finish [of ?out]]
      only_prints_silent [OF only_prints_format]
    by (simp add: fst_exit_stage fst_and_then split: sum.splits)
  then have "sent (fst (main e argv)) = [(req', ?out)]"
    using M quiet by simp
  then have "req' = req" "?out = Response resp"
    using assms by simp_all
  then have "fst (main e argv) = pre @ Sent req (Response resp) # closes
                 @ fst (format_response e resp (fst (scan_flags argv))
                          (fst (snd (scan_flags argv))))"
    "snd (main e argv)
       = (case snd (format_response e resp (fst (scan_flags argv))
                      (fst (snd (scan_flags argv)))) of
            Inl a \<Rightarrow> Inl a
          | Inr u \<Rightarrow> Inl (SysExit (status_exit resp)))"
    using M by (simp_all add: fst_exit_stage snd_exit_stage fst_and_then snd_and_then)
  then show ?thesis using quiet by blast
qed

lemma sent_Cons_empty: "sent (x # xs) = [] \<Longrightarrow> sent xs = [] \<and> (\<forall>r out. x \<noteq> Sent r out)"
  by (cases x) simp_all

lemma split_at_sent:
  "sent pre1 = [] \<Longrightarrow> sent pre2 = [] \<Longrightarrow>
   pre1 @ Sent r1 o1 # post1 = pre2 @ Sent r2 o2 # post2 \<Longrightarrow>
   pre1 = pre2 \<and> r1 = r2 \<and> o1 = o2 \<and> post1 = post2"
proof (induction pre1 arbitrary: pre2)
  case Nil
  show ?case
  proof (cases pre2)
    case Nil
    with Nil.prems show ?thesis by simp
  next
    case (Cons y ys)
    with Nil.prems(2) have "y \<noteq> Sent r1 o1" using sent_Cons_empty by blast
    with Nil.prems(3) Cons show ?thesis by simp
  qed
next
  case (Cons x pre1)
  from Cons.prems(1) have x: "sent pre1 = []" "x \<noteq> Sent r2 o2"
    using sent_Cons_empty by blast+
  show ?case
  proof (cases pre2)
    case Nil
    with Cons.prems(3) x show ?thesis by simp
  next
    case (Cons y ys)
    with Cons.prems(2) have "sent ys = []" using sent_Cons_empty by blast
    moreover from Cons Cons.prems(3) have "x = y" "pre1 @ Sent r1 o1 # post1 = ys @ Sent r2 o2 # post2"
      by simp_all
    ultimately show ?thesis using Cons.IH [OF x(1)] Cons by simp
  qed
qed

lemma main_run:
  assumes "scan_flags argv = (raw_output, verbose, mp, endpoint # pstr # rest)"
    and "endpoint \<notin> set [''-h'', ''--help'']"
  shows "main e argv = run_request e raw_output verbose mp endpoint pstr
           (case rest of [] \<Rightarrow> None | m # ms \<Rightarrow> Some m)"
  using assms by (cases rest) (simp_all add: main_def)

lemma run_request_stages:
  assumes "snd (validate_environment e) = Inr cred"
    and "snd (parse_json_payload e pstr) = Inr payload"
    and "u = build_url (fst cred) endpoint"
    and "m = determine_method e payload meth"
    and "hs = [(''Authorization'', ''Bearer '' @ snd cred), (''Accept'', ''application/json'')]
              @ (if \<not> mp then [(''Content-Type'', ''application/json'')] else [])"
    and "snd (request_info e verbose raw_output u m hs payload mp) = Inr unit"
  shows "fst (run_request e raw_output verbose mp endpoint pstr meth)
           = fst (validate_environment e) @ fst (parse_json_payload e pstr)
             @ fst (request_info e verbose raw_output u m hs payload mp)
             @ (case snd (make_request e u m hs payload mp) of
                  Inl a \<Rightarrow> fst (make_request e u m hs payload mp)
                | Inr response \<Rightarrow> fst (make_request e u m hs payload mp)
                                   @ fst (format_response e response raw_output verbose))"
    and "snd (run_request e raw_output verbose mp endpoint pstr meth)
           = (case snd (make_request e u m hs payload mp) of
                Inl a \<Rightarrow> Inl a
              | Inr response \<Rightarrow>
                  (case snd (format_response e response raw_output verbose) of
                     Inl a \<Rightarrow> Inl a
                   | Inr u \<Rightarrow> Inl (SysExit (status_exit response))))"
  using assms(6) unfolding assms(3,4,5)
  by (simp_all only: run_request_def Let_def fst_exit_stage snd_exit_stage
        fst_and_then snd_and_then assms(1,2) sum.case
        status_exit_def append_assoc fst_conv snd_conv)

lemma request_info_ok:
  "\<not> mp \<or> payload = PDict items \<Longrightarrow>
   snd (request_info e verbose raw_output u m hs payload mp) = Inr ()"
  by (auto simp: request_info_def print_verbose_request_def snd_and_then)

text \<open>
  A multipart call of \<^verbatim>\<open>make_request\<close> that hands its request to the transport: all
  files are opened before the request, and the handles closed behind it, whatever the
  transport did, are exactly the handles opened.
\<close>

lemma request_closes_upload_files:
  assumes "m \<in> set [''POST'', ''PUT'', ''PATCH'']"
    and "wf_dict items"
    and "fst (make_request e u m hs (PDict items) True) = pre @ Sent req out # post"
  shows "closed pre = [] \<and> opened post = [] \<and> closed post = opened pre
    \<and> distinct (opened pre)
    \<and> length (opened pre) = length (filter (\<lambda>kv. file_like (fst kv) (snd kv)) items)
    \<and> (\<exists>files data. req_body req = MultipartBody files data
          \<and> map (\<lambda>f. fst (snd f)) files = opened pre)"
proof -
  let ?U = "upload_items e items 0 [] []"
  have d: "distinct (map fst items)"
    using assms(2) by (simp add: wf_dict_def)
  have whole: "sent (pre @ Sent req out # post) = sent (fst (make_request e u m hs (PDict items) True))"
    using assms(3) by simp
  show ?thesis
  proof (cases "snd ?U")
    case (Inl a)
    then have "fst (make_request e u m hs (PDict items) True) = fst ?U"
      using assms(1) by (simp add: make_request_def prepare_file_upload_def fst_and_then)
    then show ?thesis
      using whole upload_items_quiet [of e items 0 "[]" "[]"] by simp
  next
    case (Inr up)
    obtain files data where up: "up = (files, data)" by (cases up)
    define req' where "req' = \<lparr>req_method = m, req_url = u,
        req_headers = filter (\<lambda>h. lower (fst h) \<noteq> ''content-type'') hs,
        req_body = MultipartBody files data, req_timeout = 30\<rparr>"
    let ?out = "requests_request e req'"
    let ?closes = "map (\<lambda>f. Closed (fst (snd f))) files"
    have run: "?U = (fst ?U, Inr (files, data))"
      using Inr up by (simp add: prod_eq_iff)
    have shape: "fst (make_request e u m hs (PDict items) True)
            = fst ?U @ Sent req' ?out # (?closes @ fst (finish_request ?out))"
      using assms(1) Inr up
      by (simp add: make_request_def prepare_file_upload_def fst_and_then Let_def req'_def)
    have fin: "sent (fst (finish_request ?out)) = []" "opened (fst (finish_request ?out)) = []"
      "closed (fst (finish_request ?out)) = []"
      using only_prints_silent [OF only_prints_finish [of ?out]] by simp_all
    have "sent pre @ (req, out) # sent post = [(req', ?out)]"
      using whole shape upload_items_quiet [of e items 0 "[]" "[]"] closes_quiet [of files] fin
      by simp
    then have quiet_pre: "sent pre = []"
      by (cases "sent pre") auto
    have quiet_U: "sent (fst ?U) = []"
      using upload_items_quiet [of e items 0 "[]" "[]"] by simp
    from split_at_sent [OF quiet_U quiet_pre assms(3) [unfolded shape]]
    have same: "pre = fst ?U" "req = req'" "post = ?closes @ fst (finish_request ?out)"
      by blast+
    from upload_items_ok [OF run d]
    have handles: "map (\<lambda>f. fst (snd f)) files = opened (fst ?U)"
      and count: "opened (fst ?U) = [0 ..< length (filter (\<lambda>kv. file_like (fst kv) (snd kv)) items)]"
      by simp_all
    have "closed pre = []"
      using same upload_items_quiet [of e items 0 "[]" "[]"] by simp
    moreover have "opened post = []"
      using same closes_quiet [of files] fin by simp
    moreover have "closed post = opened pre"
      using same closes_quiet [of files] fin handles by simp
    moreover have "distinct (opened pre)"
      and "length (opened pre) = length (filter (\<lambda>kv. file_like (fst kv) (snd kv)) items)"
      unfolding same count by simp_all
    moreover have "req_body req = MultipartBody files data
          \<and> map (\<lambda>f. fst (snd f)) files = opened pre"
      using same handles by (simp add: req'_def)
    ultimately show ?thesis by blast
  qed
qed

subsection \<open>The repair pass\<close>

text \<open>The sixteen substitutions, one after the other.\<close>

lemma fixed_payload_foldl:
  "fixed_payload payload = foldl (\<lambda>s c. replace s [backslash, c] [c]) payload shell_escaped"
  by (simp add: fixed_payload_def shell_escaped_def DQ_def Let_def)

lemma replace_Nil: "replace [] old new = []"
  by (simp add: replace.simps)

lemma replace_other:
  "c \<noteq> backslash \<Longrightarrow> replace (c # s) [backslash, x] [x] = c # replace s [backslash, x] [x]"
  by (subst replace.simps) (simp add: startswith_def)

lemma replace_escape:
  "replace (backslash # x # s) [backslash, x] [x] = x # replace s [backslash, x] [x]"
  by (subst replace.simps) (simp add: startswith_def)

lemma replace_other_escape:
  "y \<noteq> x \<Longrightarrow> y \<noteq> backslash \<Longrightarrow>
   replace (backslash # y # s) [backslash, x] [x] = backslash # y # replace s [backslash, x] [x]"
  by (subst replace.simps) (simp add: startswith_def replace_other)

lemma replace_backslash:
  "s = [] \<or> hd s \<noteq> x \<Longrightarrow>
   replace (backslash # s) [backslash, x] [x] = backslash # replace s [backslash, x] [x]"
  by (subst replace.simps, cases s) (auto simp: startswith_def)

lemma unescaped_tail: "unescaped known (c # s) \<Longrightarrow> unescaped known s"
  by (cases s) simp_all

lemma unescaped_head:
  "unescaped known (backslash # s) \<Longrightarrow> s = [] \<or> hd s \<notin> set known"
  by (cases s) simp_all

lemma replace_unescaped:
  "unescaped known s \<Longrightarrow> x \<in> set known \<Longrightarrow> replace s [backslash, x] [x] = s"
proof (induction s)
  case Nil
  then show ?case by (simp add: replace_Nil)
next
  case (Cons c s)
  then have IH: "replace s [backslash, x] [x] = s"
    using unescaped_tail by blast
  show ?case
  proof (cases "c = backslash")
    case False
    then show ?thesis using IH by (simp add: replace_other)
  next
    case True
    with Cons.prems have "s = [] \<or> hd s \<noteq> x"
      using unescaped_head by blast
    then show ?thesis using True IH by (simp add: replace_backslash)
  qed
qed

lemma escape_at_head:
  "s \<noteq> [] \<Longrightarrow> escape_at known fs s \<noteq> []
     \<and> (hd (escape_at known fs s) = backslash \<or> hd (escape_at known fs s) = hd s)"
  by (cases s; cases fs) auto

text \<open>
  One substitution takes the escapes of one character away and leaves the others, as
  long as the string had no such escape to begin with.
\<close>

lemma replace_escape_at:
  "unescaped bad s \<Longrightarrow> set known \<subseteq> set bad \<Longrightarrow> x \<in> set bad \<Longrightarrow> backslash \<notin> set bad \<Longrightarrow>
   replace (escape_at known fs s) [backslash, x] [x] = escape_at (removeAll x known) fs s"
proof (induction known fs s rule: escape_at.induct)
  case (1 known fs)
  then show ?case by (simp add: replace_Nil)
next
  case (2 known c cs)
  then show ?case using replace_unescaped [of bad "c # cs" x] by simp
next
  case (3 known f fs c cs)
  from "3.prems"(1) have tail: "unescaped bad cs"
    using unescaped_tail by blast
  have IH: "replace (escape_at known fs cs) [backslash, x] [x]
              = escape_at (removeAll x known) fs cs"
  proof (cases "f \<and> c \<in> set known")
    case True
    then show ?thesis using "3.IH"(1) tail "3.prems" by simp
  next
    case False
    then show ?thesis using "3.IH"(2) tail "3.prems" by simp
  qed
  show ?case
  proof (cases "f \<and> c \<in> set known")
    case True
    then have "c \<noteq> backslash" using "3.prems" by auto
    then show ?thesis using True IH
      by (cases "c = x") (auto simp: replace_escape replace_other_escape)
  next
    case False
    show ?thesis
    proof (cases "c = backslash")
      case other: False
      then show ?thesis using False IH by (auto simp: replace_other)
    next
      case True
      have "escape_at known fs cs = [] \<or> hd (escape_at known fs cs) \<noteq> x"
      proof (cases cs)
        case Nil
        then show ?thesis by simp
      next
        case (Cons d ds)
        then have "hd cs \<notin> set bad"
          using "3.prems"(1) True unescaped_head [of bad cs] by simp
        then show ?thesis
          using escape_at_head [of cs known fs] Cons "3.prems"(3,4) by auto
      qed
      then show ?thesis using False True IH by (auto simp: replace_backslash)
    qed
  qed
qed

lemma fixed_escape_at:
  "unescaped bad s \<Longrightarrow> set known \<subseteq> set bad \<Longrightarrow> set xs \<subseteq> set bad \<Longrightarrow> backslash \<notin> set bad \<Longrightarrow>
   foldl (\<lambda>s c. replace s [backslash, c] [c]) (escape_at known fs s) xs
     = escape_at (foldl (\<lambda>known x. removeAll x known) known xs) fs s"
proof (induction xs arbitrary: known)
  case Nil
  then show ?case by simp
next
  case (Cons x xs)
  have "set (removeAll x known) \<subseteq> set bad" using Cons.prems by auto
  moreover have "set xs \<subseteq> set bad" "x \<in> set bad" using Cons.prems by auto
  ultimately show ?case
    using Cons.IH [of "removeAll x known"] Cons.prems by (simp add: replace_escape_at)
qed

lemma removeAll_all: "set (foldl (\<lambda>known x. removeAll x known) known xs) = set known - set xs"
  by (induction xs arbitrary: known) auto

lemma escape_at_none: "set known = {} \<Longrightarrow> escape_at known fs s = s"
  by (induction known fs s rule: escape_at.induct) auto

lemma backslash_not_escaped: "backslash \<notin> set shell_escaped"
  by (simp add: shell_escaped_def backslash_def SQ_def DQ_def)

lemma fixed_payload_with_escapes:
  "no_shell_escape s \<Longrightarrow> fixed_payload (with_escapes fs s) = s"
  by (simp add: fixed_payload_foldl with_escapes_def no_shell_escape_def fixed_escape_at
      backslash_not_escaped escape_at_none removeAll_all)




subsection \<open>Blank strings and long integers\<close>

lemma strip_Nil: "strip [] = []"
  by (simp add: strip_def lstrip.simps rstrip.simps whitespace_def startswith_def endswith_def)

lemma strip_digits:
  assumes "s \<noteq> []" and "set s \<subseteq> set ''0123456789''"
  shows "strip s = s"
proof -
  obtain c cs where s_front: "s = c # cs" using assms(1) by (cases s) auto
  obtain d ds where s_back: "s = ds @ [d]" using assms(1) by (cases s rule: rev_cases) auto
  have "c \<in> set s" by (simp add: s_front)
  then have c: "c \<in> set ''0123456789''" using assms(2) by blast
  have "d \<in> set s" by (simp add: s_back)
  then have d: "d \<in> set ''0123456789''" using assms(2) by blast
  have "\<not> startswith (c # cs) w" if "w \<in> set whitespace" for w
    using that c by (auto simp: whitespace_def startswith_def)
  then have "find (startswith s) whitespace = None"
    by (simp add: find_None_iff s_front)
  moreover have "\<not> endswith (ds @ [d]) w" if "w \<in> set whitespace" for w
    using that d by (auto simp: whitespace_def endswith_def)
  then have "find (endswith s) whitespace = None"
    by (simp add: find_None_iff s_back)
  ultimately show ?thesis by (simp add: strip_def lstrip.simps rstrip.simps)
qed

text \<open>
  A run of more than 4300 digits is one token, and the decoder raises
  \<^verbatim>\<open>ValueError\<close> on it.
\<close>

lemma long_int_tokens:
  assumes "n > 4300"
  shows "tokenize (replicate n CHR ''1'') = [TLongInt]"
proof -
  obtain m where n: "n = Suc m" using assms by (cases n) auto
  have "takeWhile isdigit (replicate n CHR ''1'') = replicate n CHR ''1''"
    by (simp add: takeWhile_eq_all_conv isdigit_def)
  then have "scan_int (replicate n CHR ''1'') = Some (TLongInt, [])"
    using assms by (simp add: scan_int_def scan_digits_def n Let_def isdigit_def)
  then show ?thesis
    by (simp add: n startswith_def DQ_def)
qed

lemma long_int_decode:
  "n > 4300 \<Longrightarrow> json_decode (replicate n CHR ''1'') = Inl (OtherError ''ValueError'')"
  by (simp add: json_decode_def long_int_tokens)

lemma long_int_strip: "n > 4300 \<Longrightarrow> strip (replicate n CHR ''1'') = replicate n CHR ''1''"
  by (rule strip_digits) auto

lemma long_int_body_aborts:
  assumes "n > 4300"
  shows "snd (format_response e (reply code ''application/json'' (replicate n CHR ''1''))
                False verbose) = Inl (Uncaught ''ValueError'')"
proof -
  have "contains (lower (header_get [(''Content-Type'', ''application/json'')]
                           ''content-type'' [])) ''application/json''"
    by code_simp
  then show ?thesis
    using assms long_int_strip [OF assms] long_int_decode [OF assms]
    by (simp add: format_response_def snd_and_then Let_def reply_def)
qed

subsection \<open>A run that sends one GET request\<close>

lemma example_get_run:
  fixes files resp
  defines "e \<equiv> example_env files (\<lambda>r. Response resp)"
  defines "req \<equiv> \<lparr>req_method = ''GET'', req_url = ''https://mealie.example/api/recipes'',
     req_headers = [(''Authorization'', ''Bearer 0123456789abcdef''),
                    (''Accept'', ''application/json''),
                    (''Content-Type'', ''application/json'')],
     req_body = NoBody, req_timeout = 30\<rparr>"
  shows "(req, Response resp) \<in> set (sent (fst (main e [''recipes''])))"
proof -
  let ?u = "''https://mealie.example/api/recipes''"
  let ?hs = "[(''Authorization'', ''Bearer 0123456789abcdef''), (''Accept'', ''application/json''),
              (''Content-Type'', ''application/json'')]"
  let ?cred = "(''https://mealie.example'', ''0123456789abcdef'')"
  have m: "main e [''recipes''] = run_request e False False False ''recipes'' [] None"
    by (simp add: main_def scan_flags_def take_flag_def)
  have v: "validate_environment e = ([], Inr ?cred)"
    unfolding e_def by code_simp
  have p: "parse_json_payload e [] = ([], Inr PNone)"
    by (simp add: parse_json_payload_def)
  have u: "?u = build_url (fst ?cred) ''recipes''"
    by code_simp
  have d: "''GET'' = determine_method e PNone None"
    by (simp add: determine_method_def)
  have h: "?hs = [(''Authorization'', ''Bearer '' @ snd ?cred), (''Accept'', ''application/json'')]
              @ (if \<not> False then [(''Content-Type'', ''application/json'')] else [])"
    by simp
  have i: "snd (request_info e False False ?u ''GET'' ?hs PNone False) = Inr ()"
    by (simp add: request_info_def)
  have r: "make_request e ?u ''GET'' ?hs PNone False = ([Sent req (Response resp)], Inr resp)"
    by (simp add: make_request_def and_then_def Let_def req_def e_def example_env_def)
  note s = run_request_stages [of e ?cred "[]" PNone ?u "''recipes''" "''GET''" None ?hs
      False False False "()"]
  have "fst (main e [''recipes''])
          = fst (validate_environment e) @ fst (parse_json_payload e [])
            @ fst (request_info e False False ?u ''GET'' ?hs PNone False)
            @ [Sent req (Response resp)] @ fst (format_response e resp False False)"
    unfolding m using s(1) [OF _ _ u d h i] by (simp add: v p r)
  then show ?thesis by simp
qed

subsection \<open>The exit status of a run that displays its response\<close>

lemma exit_follows_status:
  assumes "(req, Response resp) \<in> set (sent (fst (main e argv)))"
    and "snd (format_response e resp (fst (scan_flags argv)) (fst (snd (scan_flags argv))))
           = Inr ()"
  shows "exit_code (snd (main e argv))
           = (if 200 \<le> status_code resp \<and> status_code resp < 300 then 0 else 1)"
  using main_response [OF assms(1)] assms(2) by (auto simp: status_exit_def)

section \<open>The claims\<close>

subsection \<open>C1: the exit status and the status code\<close>

text \<open>
  C1 says that whenever a run of the program receives an HTTP response, the exit status
  of the process is 0 if the status code of the response lies in [200, 300) and 1
  otherwise, whatever the body of the response. The program does not do that:
  \<^verbatim>\<open>format_response\<close> catches \<^verbatim>\<open>JSONDecodeError\<close> around \<^verbatim>\<open>response.json()\<close> and
  nothing else, so a body on which \<^verbatim>\<open>json()\<close> raises another exception ends the run
  before \<^verbatim>\<open>main\<close> comes to \<^verbatim>\<open>sys.exit\<close>. The run \<^verbatim>\<open>mealie-api.py recipes\<close> below
  sends its request and is answered with status 200, content type
  \<^verbatim>\<open>application/json\<close> and a body of 4301 digits, a JSON integer that Python refuses to
  convert: the run ends with \<^verbatim>\<open>ValueError\<close> uncaught, and the exit status is 1.
\<close>

theorem long_integer_body_breaks_exit_status:
  "(\<lparr>req_method = ''GET'', req_url = ''https://mealie.example/api/recipes'',
     req_headers = [(''Authorization'', ''Bearer 0123456789abcdef''),
                    (''Accept'', ''application/json''),
                    (''Content-Type'', ''application/json'')],
     req_body = NoBody, req_timeout = 30\<rparr>,
    Response (reply 200 ''application/json'' (replicate 4301 CHR ''1'')))
     \<in> set (sent (fst (main
           (example_env (\<lambda>p. False)
              (\<lambda>r. Response (reply 200 ''application/json'' (replicate 4301 CHR ''1''))))
           [''recipes''])))
   \<and> status_code (reply 200 ''application/json'' (replicate 4301 CHR ''1'')) = 200
   \<and> snd (main
           (example_env (\<lambda>p. False)
              (\<lambda>r. Response (reply 200 ''application/json'' (replicate 4301 CHR ''1''))))
           [''recipes'']) = Inl (Uncaught ''ValueError'')
   \<and> exit_code (snd (main
           (example_env (\<lambda>p. False)
              (\<lambda>r. Response (reply 200 ''application/json'' (replicate 4301 CHR ''1''))))
           [''recipes''])) = 1"
proof -
  let ?r = "reply 200 ''application/json'' (replicate 4301 CHR ''1'')"
  let ?e = "example_env (\<lambda>p. False) (\<lambda>r. Response ?r)"
  let ?req = "\<lparr>req_method = ''GET'', req_url = ''https://mealie.example/api/recipes'',
     req_headers = [(''Authorization'', ''Bearer 0123456789abcdef''),
                    (''Accept'', ''application/json''),
                    (''Content-Type'', ''application/json'')],
     req_body = NoBody, req_timeout = 30\<rparr>"
  have got: "(?req, Response ?r) \<in> set (sent (fst (main ?e [''recipes''])))"
    by (rule example_get_run)
  have flags: "scan_flags [''recipes''] = (False, False, False, [''recipes''])"
    by code_simp
  have "snd (format_response ?e ?r False False) = Inl (Uncaught ''ValueError'')"
    by (rule long_int_body_aborts) simp
  with main_response [OF got] have ends: "snd (main ?e [''recipes'']) = Inl (Uncaught ''ValueError'')"
    unfolding flags by auto
  have code: "status_code ?r = 200"
    by (simp add: reply_def)
  from ends have exit: "exit_code (snd (main ?e [''recipes''])) = 1"
    by simp
  show ?thesis by (intro conjI) (rule got, rule code, rule ends, rule exit)
qed

subsection \<open>C2: what the payload parser does with its argument\<close>




subsection \<open>C3: the repair pass on introduced shell escapes\<close>

text \<open>
  C3, as the specification states it, for every valid JSON payload: after shell escapes
  of the listed characters have been introduced, the repair pass followed by the JSON
  decode succeeds with the value of the original string. This fails where the original
  string has an escaped quote of its own: the last substitution removes the backslash
  of every \<^verbatim>\<open>\"\<close>, also of those that belong to the JSON text. The payload
  \<^verbatim>\<open>{"a":"say \"hi\""}\<close> is valid JSON; with an escape introduced in front of its
  space, the repaired string is \<^verbatim>\<open>{"a":"say "hi""}\<close>, which is no JSON, and the parser
  ends the run.
\<close>

theorem repair_corrupts_escaped_quotes:
  \<open>json_decode (''{"a":"say '' @ [backslash] @ ''"hi'' @ [backslash] @ ''""}'')
     = Inr (PDict [(''a'', PStr ''say "hi"'')])
   \<and> with_escapes [False, False, False, False, False, False, False, False, False, True]
        (''{"a":"say '' @ [backslash] @ ''"hi'' @ [backslash] @ ''""}'')
       = ''{"a":"say'' @ [backslash] @ '' '' @ [backslash] @ ''"hi'' @ [backslash] @ ''""}''
   \<and> fixed_payload (''{"a":"say'' @ [backslash] @ '' '' @ [backslash] @ ''"hi'' @ [backslash] @ ''""}'')
       = ''{"a":"say "hi""}''
   \<and> json_decode ''{"a":"say "hi""}'' = Inl (JSONDecodeError ''invalid JSON'')
   \<and> snd (parse_json_payload (example_env (\<lambda>p. False) (\<lambda>r. RequestException []))
        (''{"a":"say'' @ [backslash] @ '' '' @ [backslash] @ ''"hi'' @ [backslash] @ ''""}''))
       = Inl (SysExit 1)\<close>
  by (intro conjI; code_simp)

text \<open>
  C3, amended: for every payload that \<^verbatim>\<open>json.loads\<close> decodes and in which no
  backslash stands directly in front of one of the sixteen characters (its backslashes,
  if any, belong to escapes such as \<^verbatim>\<open>\n\<close> or \<^verbatim>\<open>\\\<close>), after shell
  escapes have been introduced at any positions, the repair pass restores the payload, so
  the JSON decode that follows succeeds with the value of the original string.
\<close>

theorem repair_undoes_escapes:
  "no_shell_escape s \<Longrightarrow> json_loads e s = Inr v \<Longrightarrow>
   fixed_payload (with_escapes fs s) = s
   \<and> json_loads e (fixed_payload (with_escapes fs s)) = Inr v"
  by (simp add: fixed_payload_with_escapes)

text \<open>
  \<^verbatim>\<open>{"a":"x\ny z"}\<close> has a backslash of its own. With escapes introduced in front of
  its first brace, its second quote and its space, the repaired string is the original
  and decodes to its value.
\<close>

theorem repair_undoes_escapes_witness:
  \<open>no_shell_escape (''{"a":"x'' @ [backslash] @ ''ny z"}'')
   \<and> with_escapes
        [True, False, False, True, False, False, False, False, False, False, True]
        (''{"a":"x'' @ [backslash] @ ''ny z"}'')
       = [backslash] @ ''{"a'' @ [backslash] @ ''":"x'' @ [backslash] @ ''ny''
         @ [backslash] @ '' z"}''
   \<and> json_loads (example_env (\<lambda>p. False) (\<lambda>r. RequestException []))
        (''{"a":"x'' @ [backslash] @ ''ny z"}'')
       = Inr (PDict [(''a'', PStr (''x'' @ [NL] @ ''y z''))])
   \<and> json_loads (example_env (\<lambda>p. False) (\<lambda>r. RequestException []))
        (fixed_payload
           (with_escapes
              [True, False, False, True, False, False, False, False, False, False, True]
              (''{"a":"x'' @ [backslash] @ ''ny z"}'')))
       = Inr (PDict [(''a'', PStr (''x'' @ [NL] @ ''y z''))])\<close>
proof -
  let ?e = "example_env (\<lambda>p. False) (\<lambda>r. RequestException [])"
  let ?s = \<open>''{"a":"x'' @ [backslash] @ ''ny z"}''\<close>
  let ?fs = "[True, False, False, True, False, False, False, False, False, False, True]"
  have a: "no_shell_escape ?s" by code_simp
  have b: "json_loads ?e ?s = Inr (PDict [(''a'', PStr (''x'' @ [NL] @ ''y z''))])"
    by code_simp
  have c: \<open>with_escapes ?fs ?s
     = [backslash] @ ''{"a'' @ [backslash] @ ''":"x'' @ [backslash] @ ''ny''
       @ [backslash] @ '' z"}''\<close>
    by code_simp
  note d = repair_undoes_escapes [OF a b, of ?fs, THEN conjunct2]
  show ?thesis by (intro conjI) (rule a, rule c, rule b, rule d)
qed

subsection \<open>C4: the classification is a partition\<close>

text \<open>
  C4. Whenever the classification of a payload succeeds, the keys of the file fields and
  the keys of the plain fields are disjoint and together are the keys of the payload. An
  item of the payload is among the file fields exactly when its value is a string and the
  lowercased key is one of archive, file, upload, attachment, or the value starts with
  \<^verbatim>\<open>~/\<close> or with \<^verbatim>\<open>/\<close>, or the last segment of the value between slashes contains a
  dot; otherwise the item, with its value, is among the plain fields. The payload is a
  dictionary, so its keys are distinct.
\<close>

theorem classification_partitions_payload:
  assumes "wf_dict items"
    and "prepare_file_upload e (PDict items) = (ev, Inr (files, data))"
  shows "set (map fst files) \<inter> set (map fst data) = {}
    \<and> set (map fst files) \<union> set (map fst data) = set (map fst items)
    \<and> (\<forall>(k, v) \<in> set items.
          (k \<in> set (map fst files))
            = (\<exists>s. v = PStr s
                 \<and> (lower k \<in> {''archive'', ''file'', ''upload'', ''attachment''}
                     \<or> startswith s ''~/'' \<or> startswith s ''/''
                     \<or> CHR ''.'' \<in> set (last (split CHR ''/'' s))))
          \<and> ((k, v) \<in> set data)
            = (\<not> (\<exists>s. v = PStr s
                 \<and> (lower k \<in> {''archive'', ''file'', ''upload'', ''attachment''}
                     \<or> startswith s ''~/'' \<or> startswith s ''/''
                     \<or> CHR ''.'' \<in> set (last (split CHR ''/'' s))))))"
proof -
  let ?fl = "\<lambda>kv. file_like (fst kv) (snd kv)"
  have d: "distinct (map fst items)"
    using assms(1) by (simp add: wf_dict_def)
  have run: "upload_items e items 0 [] [] = (ev, Inr (files, data))"
    using assms(2) by (simp add: prepare_file_upload_def)
  from upload_items_ok [OF run d]
  have files: "map fst files = map fst (filter ?fl items)"
    and data: "data = filter (\<lambda>kv. \<not> ?fl kv) items"
    by simp_all
  have in_files: "(k \<in> set (map fst files)) = file_like k v" if "(k, v) \<in> set items" for k v
  proof
    assume "k \<in> set (map fst files)"
    then obtain v' where "(k, v') \<in> set items" "file_like k v'"
      unfolding files by auto
    with that d show "file_like k v"
      using same_key_same_value by fastforce
  next
    assume "file_like k v"
    with that show "k \<in> set (map fst files)"
      unfolding files by force
  qed
  have in_data: "((k, v) \<in> set data) = (\<not> file_like k v)" if "(k, v) \<in> set items" for k v
    using that unfolding data by auto
  have disjoint: "set (map fst files) \<inter> set (map fst data) = {}"
  proof (rule ccontr)
    assume "set (map fst files) \<inter> set (map fst data) \<noteq> {}"
    then obtain k where "k \<in> set (map fst files)" "k \<in> set (map fst data)" by auto
    then obtain v where v: "(k, v) \<in> set data" by auto
    then have "(k, v) \<in> set items" "\<not> file_like k v" unfolding data by auto
    with in_files \<open>k \<in> set (map fst files)\<close> show False by blast
  qed
  have union: "set (map fst files) \<union> set (map fst data) = set (map fst items)"
    unfolding files data by force
  show ?thesis
    using disjoint union in_files in_data unfolding file_like_iff [symmetric] by blast
qed


text \<open>
  Five items: a key that names a file, a plain name, a path into the home directory, a
  dot that is not in the last segment, a number.
\<close>

theorem classification_partitions_payload_witness:
  "wf_dict [(''Archive'', PStr ''backup''), (''name'', PStr ''Test Recipe''),
            (''img'', PStr ''~/cake.png''), (''note'', PStr ''v1.2/readme''), (''n'', PInt 3)]
   \<and> snd (prepare_file_upload (example_env (\<lambda>p. True) (\<lambda>r. RequestException []))
        (PDict [(''Archive'', PStr ''backup''), (''name'', PStr ''Test Recipe''),
                (''img'', PStr ''~/cake.png''), (''note'', PStr ''v1.2/readme''), (''n'', PInt 3)]))
       = Inr ([(''Archive'', (0, ''backup'')), (''img'', (1, ''/home/cook/cake.png''))],
              [(''name'', PStr ''Test Recipe''), (''note'', PStr ''v1.2/readme''), (''n'', PInt 3)])
   \<and> set (map fst [(''Archive'', (0 :: nat, ''backup'')), (''img'', (1, ''/home/cook/cake.png''))])
       \<union> set (map fst [(''name'', PStr ''Test Recipe''), (''note'', PStr ''v1.2/readme''),
                       (''n'', PInt 3)])
       = set (map fst [(''Archive'', PStr ''backup''), (''name'', PStr ''Test Recipe''),
            (''img'', PStr ''~/cake.png''), (''note'', PStr ''v1.2/readme''), (''n'', PInt 3)])
   \<and> ''img'' \<in> set (map fst [(''Archive'', (0 :: nat, ''backup'')),
                                (''img'', (1, ''/home/cook/cake.png''))])
   \<and> (''note'', PStr ''v1.2/readme'')
       \<in> set [(''name'', PStr ''Test Recipe''), (''note'', PStr ''v1.2/readme''), (''n'', PInt 3)]"
proof -
  let ?e = "example_env (\<lambda>p. True) (\<lambda>r. RequestException [])"
  let ?items = "[(''Archive'', PStr ''backup''), (''name'', PStr ''Test Recipe''),
            (''img'', PStr ''~/cake.png''), (''note'', PStr ''v1.2/readme''), (''n'', PInt 3)]"
  let ?files = "[(''Archive'', (0 :: nat, ''backup'')), (''img'', (1, ''/home/cook/cake.png''))]"
  let ?data = "[(''name'', PStr ''Test Recipe''), (''note'', PStr ''v1.2/readme''), (''n'', PInt 3)]"
  have wf: "wf_dict ?items"
    by code_simp
  have res: "snd (prepare_file_upload ?e (PDict ?items)) = Inr (?files, ?data)"
    by code_simp
  then have run: "prepare_file_upload ?e (PDict ?items)
                    = (fst (prepare_file_upload ?e (PDict ?items)), Inr (?files, ?data))"
    by (simp add: prod_eq_iff)
  note all = classification_partitions_payload [OF wf run]
  note part = all [THEN conjunct2, THEN conjunct1]
  have img: "(''img'', PStr ''~/cake.png'') \<in> set ?items"
    and readme: "(''note'', PStr ''v1.2/readme'') \<in> set ?items"
    by simp_all
  have home: "startswith ''~/cake.png'' ''~/''"
    by code_simp
  have plain: "\<not> (lower ''note'' \<in> {''archive'', ''file'', ''upload'', ''attachment''}
                  \<or> startswith ''v1.2/readme'' ''~/'' \<or> startswith ''v1.2/readme'' ''/''
                  \<or> CHR ''.'' \<in> set (last (split CHR ''/'' ''v1.2/readme'')))"
    by code_simp
  from all img home have 1: "''img'' \<in> set (map fst ?files)"
    by blast
  from all readme plain have 2: "(''note'', PStr ''v1.2/readme'') \<in> set ?data"
    by blast
  show ?thesis by (intro conjI) (rule wf, rule res, rule part, rule 1, rule 2)
qed

subsection \<open>C5: a file of a multipart payload that does not exist\<close>

text \<open>
  C5, as the specification states it: if a file reference of a multipart payload, with a
  leading \<^verbatim>\<open>~\<close> expanded, names no existing regular file, the run exits with 1, reports
  the resolved path and sends no request. \<^verbatim>\<open>make_request\<close> classifies the payload
  only where it attaches a body, for the methods POST, PUT and PATCH. With the multipart
  flag and an explicit \<^verbatim>\<open>DELETE\<close>, the payload \<^verbatim>\<open>{"file":"/nope"}\<close> is never
  classified: the request is sent without a body, and the exit status is that of the
  response.
\<close>

theorem missing_file_ignored_without_upload:
  \<open>scan_flags [''recipes/1'', ''{"file":"/nope"}'', ''DELETE'', ''--multipart'']
     = (False, False, True, [''recipes/1'', ''{"file":"/nope"}'', ''DELETE''])
   \<and> snd (parse_json_payload
            (example_env (\<lambda>p. False) (\<lambda>r. Response (reply 200 ''text/plain'' ''ok'')))
            ''{"file":"/nope"}'') = Inr (PDict [(''file'', PStr ''/nope'')])
   \<and> file_like ''file'' (PStr ''/nope'')
   \<and> \<not> isfile (example_env (\<lambda>p. False) (\<lambda>r. Response (reply 200 ''text/plain'' ''ok'')))
          (expanduser (example_env (\<lambda>p. False) (\<lambda>r. Response (reply 200 ''text/plain'' ''ok'')))
             ''/nope'')
   \<and> sent (fst (main (example_env (\<lambda>p. False) (\<lambda>r. Response (reply 200 ''text/plain'' ''ok'')))
                    [''recipes/1'', ''{"file":"/nope"}'', ''DELETE'', ''--multipart'']))
       = [(\<lparr>req_method = ''DELETE'', req_url = ''https://mealie.example/api/recipes/1'',
            req_headers = [(''Authorization'', ''Bearer 0123456789abcdef''),
                           (''Accept'', ''application/json'')],
            req_body = NoBody, req_timeout = 30\<rparr>,
           Response (reply 200 ''text/plain'' ''ok''))]
   \<and> exit_code (snd (main (example_env (\<lambda>p. False) (\<lambda>r. Response (reply 200 ''text/plain'' ''ok'')))
                    [''recipes/1'', ''{"file":"/nope"}'', ''DELETE'', ''--multipart''])) = 0\<close>
  by (intro conjI; code_simp)

text \<open>
  C5, amended: in a multipart run (both environment variables set, the payload a JSON
  object) whose method, explicit or inferred, is POST, PUT or PATCH, if a file reference
  of the payload, with a leading \<^verbatim>\<open>~\<close> expanded, names no existing regular file, the
  run exits with 1, it has printed the resolved path of such a reference in its "File not
  found" line, no HTTP request is sent, and the classification returns no result.
\<close>

theorem missing_upload_file_is_fatal:
  assumes "scan_flags argv = (raw_output, verbose, True, endpoint # pstr # rest)"
    and "endpoint \<notin> set [''-h'', ''--help'']"
    and "snd (validate_environment e) = Inr cred"
    and "snd (parse_json_payload e pstr) = Inr (PDict items)"
    and "determine_method e (PDict items) (case rest of [] \<Rightarrow> None | m # ms \<Rightarrow> Some m)
           \<in> set [''POST'', ''PUT'', ''PATCH'']"
    and "(key, PStr path) \<in> set items"
    and "file_like key (PStr path)"
    and "\<not> isfile e (expanduser e path)"
  shows "exit_code (snd (main e argv)) = 1
    \<and> sent (fst (main e argv)) = []
    \<and> snd (prepare_file_upload e (PDict items)) = Inl (SysExit 1)
    \<and> (\<exists>key' path'. (key', PStr path') \<in> set items
          \<and> file_like key' (PStr path')
          \<and> \<not> isfile e (expanduser e path')
          \<and> print_color RED (''Error: File not found: '' @ expanduser e path')
               \<in> set (fst (main e argv)))"
proof -
  define meth where "meth = (case rest of [] \<Rightarrow> None | m # ms \<Rightarrow> Some m)"
  define u where "u = build_url (fst cred) endpoint"
  define m where "m = determine_method e (PDict items) meth"
  define hs where "hs = [(''Authorization'', ''Bearer '' @ snd cred), (''Accept'', ''application/json'')]
              @ (if \<not> True then [(''Content-Type'', ''application/json'')] else [])"
  let ?I = "request_info e verbose raw_output u m hs (PDict items) True"
  let ?M = "make_request e u m hs (PDict items) True"
  let ?U = "prepare_file_upload e (PDict items)"
  have main: "main e argv = run_request e raw_output verbose True endpoint pstr meth"
    unfolding meth_def by (rule main_run [OF assms(1,2)])
  have info: "snd ?I = Inr ()"
    by (rule request_info_ok) simp
  note stages = run_request_stages [OF assms(3,4) u_def m_def hs_def info]
  from upload_items_missing [OF assms(6,7,8), of 0 "[]" "[]"]
  obtain key' path' where failed: "snd ?U = Inl (SysExit 1)"
    and culprit: "(key', PStr path') \<in> set items" "file_like key' (PStr path')"
      "\<not> isfile e (expanduser e path')"
    and line: "print_color RED (''Error: File not found: '' @ expanduser e path') \<in> set (fst ?U)"
    unfolding prepare_file_upload_def by auto
  have mth: "m \<in> set [''POST'', ''PUT'', ''PATCH'']"
    using assms(5) unfolding m_def meth_def .
  have M: "fst ?M = fst ?U" "snd ?M = Inl (SysExit 1)"
    using mth failed by (simp_all add: make_request_def fst_and_then snd_and_then)
  have run: "fst (main e argv) = fst (validate_environment e) @ fst (parse_json_payload e pstr)
                                  @ fst ?I @ fst ?U"
    "snd (main e argv) = Inl (SysExit 1)"
    unfolding main stages M by simp_all
  have "sent (fst (main e argv)) = []"
    unfolding run
    using only_prints_silent [OF only_prints_validate [of e]]
      only_prints_silent [OF only_prints_parse [of e pstr]]
      only_prints_silent [OF only_prints_request_info [of e verbose raw_output u m hs "PDict items" True]]
      prepare_quiet [of e "PDict items"]
    by simp
  moreover have "print_color RED (''Error: File not found: '' @ expanduser e path')
               \<in> set (fst (main e argv))"
    unfolding run using line by simp
  moreover have "exit_code (snd (main e argv)) = 1"
    unfolding run by simp
  ultimately show ?thesis
    using failed culprit by blast
qed

text \<open>A migration archive that is not there: the run with \<^verbatim>\<open>-m\<close> and an inferred
  POST ends with 1 before any request.\<close>

theorem missing_upload_file_is_fatal_witness:
  \<open>exit_code (snd (main (example_env (\<lambda>p. False) (\<lambda>r. Response (reply 200 ''text/plain'' ''ok'')))
                 [''-m'', ''groups/migrations'', ''{"archive":"~/backup.zip"}''])) = 1
   \<and> sent (fst (main (example_env (\<lambda>p. False) (\<lambda>r. Response (reply 200 ''text/plain'' ''ok'')))
                 [''-m'', ''groups/migrations'', ''{"archive":"~/backup.zip"}''])) = []
   \<and> print_color RED ''Error: File not found: /home/cook/backup.zip''
       \<in> set (fst (main (example_env (\<lambda>p. False) (\<lambda>r. Response (reply 200 ''text/plain'' ''ok'')))
                 [''-m'', ''groups/migrations'', ''{"archive":"~/backup.zip"}'']))\<close>
proof -
  let ?e = "example_env (\<lambda>p. False) (\<lambda>r. Response (reply 200 ''text/plain'' ''ok''))"
  let ?argv = \<open>[''-m'', ''groups/migrations'', ''{"archive":"~/backup.zip"}'']\<close>
  let ?items = "[(''archive'', PStr ''~/backup.zip'')]"
  have flags: \<open>scan_flags ?argv
                 = (False, False, True, ''groups/migrations'' # ''{"archive":"~/backup.zip"}'' # [])\<close>
    by code_simp
  have endpoint: "''groups/migrations'' \<notin> set [''-h'', ''--help'']"
    by code_simp
  have cred: "snd (validate_environment ?e) = Inr (''https://mealie.example'', ''0123456789abcdef'')"
    by code_simp
  have parsed: \<open>snd (parse_json_payload ?e ''{"archive":"~/backup.zip"}'') = Inr (PDict ?items)\<close>
    by code_simp
  have meth: "determine_method ?e (PDict ?items) (case [] of [] \<Rightarrow> None | m # ms \<Rightarrow> Some m)
                \<in> set [''POST'', ''PUT'', ''PATCH'']"
    by code_simp
  have item: "(''archive'', PStr ''~/backup.zip'') \<in> set ?items"
    by simp
  have like: "file_like ''archive'' (PStr ''~/backup.zip'')"
    by code_simp
  have missing: "\<not> isfile ?e (expanduser ?e ''~/backup.zip'')"
    by code_simp
  have home: "expanduser ?e ''~/backup.zip'' = ''/home/cook/backup.zip''"
    by code_simp
  from missing_upload_file_is_fatal [OF flags endpoint cred parsed meth item like missing]
  obtain key' path' where exit: "exit_code (snd (main ?e ?argv)) = 1"
    and none: "sent (fst (main ?e ?argv)) = []"
    and culprit: "(key', PStr path') \<in> set ?items"
    and line: "print_color RED (''Error: File not found: '' @ expanduser ?e path')
                 \<in> set (fst (main ?e ?argv))"
    by blast
  from culprit have "path' = ''~/backup.zip''"
    by simp
  with line home have "print_color RED ''Error: File not found: /home/cook/backup.zip''
                         \<in> set (fst (main ?e ?argv))"
    by simp
  with exit none show ?thesis by blast
qed

subsection \<open>C6: raw mode\<close>

text \<open>
  C6, as the specification states it: in raw mode the rendered output is the body text
  of the response and nothing else, for every response. \<^verbatim>\<open>format_response\<close> looks
  at the verbose flag before it looks at the raw flag, so a run that is both raw and
  verbose prints the debug report of the response (status code, reason, headers, size) in
  front of the body.
\<close>

theorem raw_verbose_output_has_metadata:
  "stdout (fst (format_response (example_env (\<lambda>p. False) (\<lambda>r. RequestException []))
                  (reply 200 ''text/plain'' ''ok'') True True))
     = BLUE @ ''=== HTTP RESPONSE DEBUG INFO ==='' @ NC @ [NL]
       @ ''Status Code: 200'' @ [NL]
       @ ''Reason: '' @ [NL]
       @ ''URL: '' @ [NL]
       @ ''Response Time: 0.00ms'' @ [NL]
       @ [NL]
       @ YELLOW @ ''Response Headers:'' @ NC @ [NL]
       @ ''  Content-Type: text/plain'' @ [NL]
       @ [NL]
       @ ''Response Size: 2 bytes'' @ [NL]
       @ [NL]
       @ ''ok''
   \<and> resp_text (reply 200 ''text/plain'' ''ok'') = ''ok''"
  by (intro conjI; code_simp)

text \<open>
  C6, amended: in raw mode without verbose mode, for every response and every status
  code, what \<^verbatim>\<open>format_response\<close> writes is exactly the body text of the response. In
  such a run of the program all that is written once the request is sent is that body
  text, and the exit status is still derived from the status code.
\<close>

theorem raw_output_is_body:
  "stdout (fst (format_response e response True False)) = resp_text response
   \<and> (scan_flags argv = (True, False, mp, args) \<longrightarrow>
        (req, Response response) \<in> set (sent (fst (main e argv))) \<longrightarrow>
          (\<exists>pre post. fst (main e argv) = pre @ Sent req (Response response) # post
                       \<and> sent pre = [] \<and> stdout post = resp_text response)
          \<and> exit_code (snd (main e argv))
              = (if 200 \<le> status_code response \<and> status_code response < 300 then 0 else 1))"
proof (intro conjI impI)
  show body: "stdout (fst (format_response e response True False)) = resp_text response"
    by (simp add: format_response_def fst_and_then)
  have returns: "snd (format_response e response True False) = Inr ()"
    by (simp add: format_response_returns)
  assume flags: "scan_flags argv = (True, False, mp, args)"
    and got: "(req, Response response) \<in> set (sent (fst (main e argv)))"
  from main_response [OF got] obtain pre closes where
    run: "fst (main e argv) = pre @ Sent req (Response response) # closes
                 @ fst (format_response e response True False)"
    and quiet: "sent pre = []" "stdout closes = []"
    unfolding flags by auto
  have "stdout (closes @ fst (format_response e response True False)) = resp_text response"
    using quiet body by simp
  with run quiet
  show "\<exists>pre post. fst (main e argv) = pre @ Sent req (Response response) # post
                       \<and> sent pre = [] \<and> stdout post = resp_text response"
    by blast
  show "exit_code (snd (main e argv))
              = (if 200 \<le> status_code response \<and> status_code response < 300 then 0 else 1)"
    using exit_follows_status [OF got] returns unfolding flags by simp
qed

text \<open>A raw run that is answered with 500 and a page: the output of the whole run is
  the page, the exit status is 1.\<close>

theorem raw_output_is_body_witness:
  "scan_flags [''--raw'', ''recipes''] = (True, False, False, [''recipes''])
   \<and> (\<lparr>req_method = ''GET'', req_url = ''https://mealie.example/api/recipes'',
         req_headers = [(''Authorization'', ''Bearer 0123456789abcdef''),
                        (''Accept'', ''application/json''),
                        (''Content-Type'', ''application/json'')],
         req_body = NoBody, req_timeout = 30\<rparr>,
        Response (reply 500 ''text/html'' ''<p>no</p>''))
       \<in> set (sent (fst (main
             (example_env (\<lambda>p. False) (\<lambda>r. Response (reply 500 ''text/html'' ''<p>no</p>'')))
             [''--raw'', ''recipes''])))
   \<and> stdout (fst (main
             (example_env (\<lambda>p. False) (\<lambda>r. Response (reply 500 ''text/html'' ''<p>no</p>'')))
             [''--raw'', ''recipes''])) = ''<p>no</p>''
   \<and> exit_code (snd (main
             (example_env (\<lambda>p. False) (\<lambda>r. Response (reply 500 ''text/html'' ''<p>no</p>'')))
             [''--raw'', ''recipes''])) = 1"
proof -
  let ?e = "example_env (\<lambda>p. False) (\<lambda>r. Response (reply 500 ''text/html'' ''<p>no</p>''))"
  let ?req = "\<lparr>req_method = ''GET'', req_url = ''https://mealie.example/api/recipes'',
         req_headers = [(''Authorization'', ''Bearer 0123456789abcdef''),
                        (''Accept'', ''application/json''),
                        (''Content-Type'', ''application/json'')],
         req_body = NoBody, req_timeout = 30\<rparr>"
  have flags: "scan_flags [''--raw'', ''recipes''] = (True, False, False, [''recipes''])"
    by code_simp
  have got: "(?req, Response (reply 500 ''text/html'' ''<p>no</p>''))
               \<in> set (sent (fst (main ?e [''--raw'', ''recipes''])))"
    by code_simp
  have out: "stdout (fst (main ?e [''--raw'', ''recipes''])) = ''<p>no</p>''"
    by code_simp
  from raw_output_is_body [of ?e "reply 500 ''text/html'' ''<p>no</p>''" "[''--raw'', ''recipes'']"
      False "[''recipes'']" ?req] flags got
  have "exit_code (snd (main ?e [''--raw'', ''recipes'']))
          = (if 200 \<le> status_code (reply 500 ''text/html'' ''<p>no</p>'')
                \<and> status_code (reply 500 ''text/html'' ''<p>no</p>'') < 300 then 0 else 1)"
    by blast
  then have exit: "exit_code (snd (main ?e [''--raw'', ''recipes''])) = 1"
    by (simp add: reply_def)
  show ?thesis by (intro conjI) (rule flags, rule got, rule out, rule exit)
qed

subsection \<open>C7: a response that declares JSON and is none\<close>

text \<open>
  C7, as the specification states it: for every response, rendered not raw, whose
  content type contains \<^verbatim>\<open>application/json\<close> and whose body is not valid JSON, the
  renderer prints a warning and then the raw body text. What \<^verbatim>\<open>format_response\<close>
  prints after the warning is not the body text as it was received but
  \<^verbatim>\<open>response.text.strip()\<close>. The body below is a word with a space in front and a
  line end behind: the word is printed, the body text is not.
\<close>

theorem padded_json_body_is_shown_stripped:
  "resp_text (reply 200 ''application/json'' ('' maintenance'' @ [NL])) = '' maintenance'' @ [NL]
   \<and> resp_json (reply 200 ''application/json'' ('' maintenance'' @ [NL]))
       = Inl (JSONDecodeError ''invalid JSON'')
   \<and> contains (lower (header_get
                          (resp_headers (reply 200 ''application/json'' ('' maintenance'' @ [NL])))
                          ''content-type'' [])) ''application/json''
   \<and> format_response (example_env (\<lambda>p. False) (\<lambda>r. RequestException []))
        (reply 200 ''application/json'' ('' maintenance'' @ [NL])) False False
       = ([print_color GREEN (check_mark @ '' Success (HTTP 200)''),
           print (NL # ''Response:''),
           print_color YELLOW ''Response claims to be JSON but is not valid JSON:'',
           Print (''maintenance'' @ [NL])], Inr ())
   \<and> Print ('' maintenance'' @ [NL]) \<notin> set (fst (format_response
           (example_env (\<lambda>p. False) (\<lambda>r. RequestException []))
           (reply 200 ''application/json'' ('' maintenance'' @ [NL])) False False))
   \<and> Print ('' maintenance'' @ [NL] @ [NL]) \<notin> set (fst (format_response
           (example_env (\<lambda>p. False) (\<lambda>r. RequestException []))
           (reply 200 ''application/json'' ('' maintenance'' @ [NL])) False False))"
  by (intro conjI; code_simp)

text \<open>
  C7, amended: for every response, rendered not raw, whose content type (compared
  without regard to case) contains \<^verbatim>\<open>application/json\<close>, whose body is not empty or
  whitespace-only, and on whose body \<^verbatim>\<open>response.json()\<close> raises
  \<^verbatim>\<open>JSONDecodeError\<close>, the renderer prints the status banner, the line
  \<^verbatim>\<open>Response:\<close>, the warning and then the body text with the surrounding whitespace
  stripped, and returns. The exit status of a run that receives such a response is the
  one derived from the status code.
\<close>

theorem invalid_json_body_is_shown:
  assumes "contains (lower (header_get (resp_headers response) ''content-type'' []))
             ''application/json''"
    and "resp_json response = Inl (JSONDecodeError msg)"
    and "strip (resp_text response) \<noteq> []"
  shows "format_response e response False verbose
           = ((if verbose then print_verbose_response e response else [])
              @ [status_banner (status_code response),
                 print (NL # ''Response:''),
                 print_color YELLOW ''Response claims to be JSON but is not valid JSON:'',
                 print (strip (resp_text response))], Inr ())
         \<and> ((req, Response response) \<in> set (sent (fst (main e argv))) \<longrightarrow>
               exit_code (snd (main e argv))
                 = (if 200 \<le> status_code response \<and> status_code response < 300 then 0 else 1))"
proof (intro conjI impI)
  show "format_response e response False verbose
           = ((if verbose then print_verbose_response e response else [])
              @ [status_banner (status_code response),
                 print (NL # ''Response:''),
                 print_color YELLOW ''Response claims to be JSON but is not valid JSON:'',
                 print (strip (resp_text response))], Inr ())"
    using assms by (simp add: format_response_def and_then_def Let_def)
  assume got: "(req, Response response) \<in> set (sent (fst (main e argv)))"
  have "snd (format_response e response (fst (scan_flags argv)) (fst (snd (scan_flags argv))))
          = Inr ()"
    using assms(2) by (simp add: format_response_returns)
  with exit_follows_status [OF got]
  show "exit_code (snd (main e argv))
                 = (if 200 \<le> status_code response \<and> status_code response < 300 then 0 else 1)"
    by simp
qed

text \<open>
  A gateway answers 502 with a plain text that it declares as JSON, a no-break space in
  front of it and a line end behind.
\<close>

theorem invalid_json_body_is_shown_witness:
  "format_response
     (example_env (\<lambda>p. False)
        (\<lambda>r. Response (reply 502 ''Application/JSON; charset=utf-8''
                         ([CHR 0xC2, CHR 0xA0] @ ''Bad Gateway'' @ [NL]))))
     (reply 502 ''Application/JSON; charset=utf-8''
        ([CHR 0xC2, CHR 0xA0] @ ''Bad Gateway'' @ [NL])) False False
     = ([print_color RED (ballot_x @ '' Server Error (HTTP 502)''),
         print (NL # ''Response:''),
         print_color YELLOW ''Response claims to be JSON but is not valid JSON:'',
         print ''Bad Gateway''], Inr ())
   \<and> exit_code (snd (main
        (example_env (\<lambda>p. False)
           (\<lambda>r. Response (reply 502 ''Application/JSON; charset=utf-8''
                            ([CHR 0xC2, CHR 0xA0] @ ''Bad Gateway'' @ [NL]))))
        [''recipes''])) = 1"
proof -
  let ?r = "reply 502 ''Application/JSON; charset=utf-8''
              ([CHR 0xC2, CHR 0xA0] @ ''Bad Gateway'' @ [NL])"
  let ?e = "example_env (\<lambda>p. False) (\<lambda>r. Response ?r)"
  let ?req = "\<lparr>req_method = ''GET'', req_url = ''https://mealie.example/api/recipes'',
         req_headers = [(''Authorization'', ''Bearer 0123456789abcdef''),
                        (''Accept'', ''application/json''),
                        (''Content-Type'', ''application/json'')],
         req_body = NoBody, req_timeout = 30\<rparr>"
  have a: "contains (lower (header_get (resp_headers ?r) ''content-type'' [])) ''application/json''"
    by code_simp
  have b: "resp_json ?r = Inl (JSONDecodeError ''invalid JSON'')"
    by code_simp
  have c: "strip (resp_text ?r) \<noteq> []"
    by code_simp
  have d: "strip (resp_text ?r) = ''Bad Gateway''"
    and f: "status_banner (status_code ?r) = print_color RED (ballot_x @ '' Server Error (HTTP 502)'')"
    by code_simp+
  have got: "(?req, Response ?r) \<in> set (sent (fst (main ?e [''recipes''])))"
    by (rule example_get_run)
  note shown = invalid_json_body_is_shown [OF a b c, of ?e False ?req "[''recipes'']"]
  from shown have 1: "format_response ?e ?r False False
     = ([print_color RED (ballot_x @ '' Server Error (HTTP 502)''),
         print (NL # ''Response:''),
         print_color YELLOW ''Response claims to be JSON but is not valid JSON:'',
         print ''Bad Gateway''], Inr ())"
    unfolding d f by simp
  from shown got have "exit_code (snd (main ?e [''recipes'']))
      = (if 200 \<le> status_code ?r \<and> status_code ?r < 300 then 0 else 1)"
    by blast
  then have 2: "exit_code (snd (main ?e [''recipes''])) = 1"
    by (simp add: reply_def)
  show ?thesis by (intro conjI) (rule 1, rule 2)
qed

subsection \<open>C8: the files of an upload are closed\<close>

text \<open>
  C8 says that in a multipart invocation with method POST, PUT or PATCH and a payload,
  every file opened for the upload is closed on all exit paths. The \<^verbatim>\<open>finally\<close> block
  of \<^verbatim>\<open>make_request\<close> closes the files around the call of the transport only; the
  files are opened before, in the loop of \<^verbatim>\<open>prepare_file_upload\<close>, and that loop
  calls \<^verbatim>\<open>sys.exit(1)\<close> at the first file that is missing. In the run below the
  payload names a file that exists and, behind it, one that does not: the first file is
  opened, the run ends with exit status 1, no request is sent, and the handle is never
  closed.
\<close>

theorem missing_later_file_leaves_handle_open:
  \<open>fst (main (example_env (\<lambda>p. p = ''/data/a.zip'') (\<lambda>r. RequestException []))
          [''-m'', ''groups/migrations'', ''{"archive":"/data/a.zip","logo":"b.png"}''])
     = [print_color BLUE
          ''Making POST request to: https://mealie.example/api/groups/migrations'',
        print_color CYAN ''Content-Type: multipart/form-data'',
        print_color YELLOW ''Payload: '',
        print [],
        print_color CYAN ''Adding file upload: archive -> /data/a.zip'',
        Opened 0 ''/data/a.zip'',
        print_color RED ''Error: File not found: b.png'']
   \<and> snd (main (example_env (\<lambda>p. p = ''/data/a.zip'') (\<lambda>r. RequestException []))
          [''-m'', ''groups/migrations'', ''{"archive":"/data/a.zip","logo":"b.png"}''])
       = Inl (SysExit 1)
   \<and> opened (fst (main (example_env (\<lambda>p. p = ''/data/a.zip'') (\<lambda>r. RequestException []))
          [''-m'', ''groups/migrations'', ''{"archive":"/data/a.zip","logo":"b.png"}'']))
       = [0]
   \<and> closed (fst (main (example_env (\<lambda>p. p = ''/data/a.zip'') (\<lambda>r. RequestException []))
          [''-m'', ''groups/migrations'', ''{"archive":"/data/a.zip","logo":"b.png"}'']))
       = []
   \<and> sent (fst (main (example_env (\<lambda>p. p = ''/data/a.zip'') (\<lambda>r. RequestException []))
          [''-m'', ''groups/migrations'', ''{"archive":"/data/a.zip","logo":"b.png"}'']))
       = []\<close>
  by (intro conjI; code_simp)

subsection \<open>C9: the payload \<open>null\<close>\<close>

text \<open>
  C9. For the payload argument \<^verbatim>\<open>null\<close>, which \<^verbatim>\<open>json.loads\<close> decodes to
  \<^verbatim>\<open>None\<close>, the parser returns what it returns for no payload at all, and the rest
  of the run is the same as for the empty argument: the method inferred without an
  explicit one is \<^verbatim>\<open>GET\<close>, and the request carries no body whatever the method.
\<close>

theorem null_payload_is_absent:
  "json_loads e ''null'' = Inr PNone \<Longrightarrow>
   parse_json_payload e ''null'' = ([], Inr PNone)
   \<and> parse_json_payload e ''null'' = parse_json_payload e []
   \<and> run_request e raw_output verbose mp endpoint ''null'' method
       = run_request e raw_output verbose mp endpoint [] method
   \<and> determine_method e PNone None = ''GET''
   \<and> make_request e u m hs PNone mp
       = and_then
           ([Sent \<lparr>req_method = m, req_url = u, req_headers = hs, req_body = NoBody,
                   req_timeout = 30\<rparr>
               (requests_request e \<lparr>req_method = m, req_url = u, req_headers = hs,
                                    req_body = NoBody, req_timeout = 30\<rparr>)], Inr ())
           (\<lambda>u'. finish_request
                    (requests_request e \<lparr>req_method = m, req_url = u, req_headers = hs,
                                         req_body = NoBody, req_timeout = 30\<rparr>))"
  by (simp add: parse_json_payload_def determine_method_def make_request_def run_request_def Let_def)

text \<open>The command line \<^verbatim>\<open>recipes null\<close>: a GET without a body.\<close>

theorem null_payload_is_absent_witness:
  "json_loads (example_env (\<lambda>p. False) (\<lambda>r. Response (reply 200 ''text/plain'' ''ok''))) ''null''
     = Inr PNone
   \<and> parse_json_payload (example_env (\<lambda>p. False) (\<lambda>r. Response (reply 200 ''text/plain'' ''ok'')))
        ''null'' = ([], Inr PNone)
   \<and> sent (fst (main (example_env (\<lambda>p. False) (\<lambda>r. Response (reply 200 ''text/plain'' ''ok'')))
        [''recipes'', ''null'']))
       = [(\<lparr>req_method = ''GET'', req_url = ''https://mealie.example/api/recipes'',
            req_headers = [(''Authorization'', ''Bearer 0123456789abcdef''),
                           (''Accept'', ''application/json''),
                           (''Content-Type'', ''application/json'')],
            req_body = NoBody, req_timeout = 30\<rparr>,
           Response (reply 200 ''text/plain'' ''ok''))]"
proof -
  let ?e = "example_env (\<lambda>p. False) (\<lambda>r. Response (reply 200 ''text/plain'' ''ok''))"
  have null: "json_loads ?e ''null'' = Inr PNone"
    by code_simp
  note parsed = null_payload_is_absent [OF null, THEN conjunct1]
  have run: "sent (fst (main ?e [''recipes'', ''null'']))
       = [(\<lparr>req_method = ''GET'', req_url = ''https://mealie.example/api/recipes'',
            req_headers = [(''Authorization'', ''Bearer 0123456789abcdef''),
                           (''Accept'', ''application/json''),
                           (''Content-Type'', ''application/json'')],
            req_body = NoBody, req_timeout = 30\<rparr>,
           Response (reply 200 ''text/plain'' ''ok''))]"
    by code_simp
  show ?thesis by (intro conjI) (rule null, rule parsed, rule run)
qed

subsection \<open>C10: a payload that is no mapping\<close>

text \<open>
  C10, as the specification states it: for every payload argument that is valid JSON with
  a top-level value that is no mapping, the parser returns the value and the program
  sends it as the body of the request. The parser does return it; the program attaches
  a body only for the methods POST, PUT and PATCH. With an explicit \<^verbatim>\<open>GET\<close> the
  payload \<^verbatim>\<open>[1]\<close> is parsed and then left out of the request.
\<close>

theorem explicit_get_drops_payload:
  "parse_json_payload (example_env (\<lambda>p. False) (\<lambda>r. Response (reply 200 ''text/plain'' ''ok'')))
     ''[1]'' = ([], Inr (PList [PInt 1]))
   \<and> sent (fst (main (example_env (\<lambda>p. False) (\<lambda>r. Response (reply 200 ''text/plain'' ''ok'')))
                    [''recipes'', ''[1]'', ''GET'']))
       = [(\<lparr>req_method = ''GET'', req_url = ''https://mealie.example/api/recipes'',
            req_headers = [(''Authorization'', ''Bearer 0123456789abcdef''),
                           (''Accept'', ''application/json''),
                           (''Content-Type'', ''application/json'')],
            req_body = NoBody, req_timeout = 30\<rparr>,
           Response (reply 200 ''text/plain'' ''ok''))]"
  by (intro conjI; code_simp)

text \<open>
  C10, amended: for every payload argument that \<^verbatim>\<open>json.loads\<close> decodes (valid JSON,
  so not blank, within the limits of the interpreter), a mapping or not, the parser
  returns the decoded value and prints nothing. When the value is not \<^verbatim>\<open>null\<close> and
  the run (both environment variables set) is not multipart and its method, explicit or
  the inferred POST, is POST, PUT or PATCH, the program sends exactly one request, and
  that value is its JSON body.
\<close>

theorem payload_value_is_sent_as_json:
  assumes "strip pstr \<noteq> []"
    and "json_loads e pstr = Inr v"
  shows "parse_json_payload e pstr = ([], Inr v)
    \<and> (v \<noteq> PNone \<longrightarrow>
        scan_flags argv = (raw_output, verbose, False, endpoint # pstr # rest) \<longrightarrow>
        endpoint \<notin> set [''-h'', ''--help''] \<longrightarrow>
        snd (validate_environment e) = Inr cred \<longrightarrow>
        determine_method e v (case rest of [] \<Rightarrow> None | m # ms \<Rightarrow> Some m)
          \<in> set [''POST'', ''PUT'', ''PATCH''] \<longrightarrow>
        (let req = \<lparr>req_method
                        = determine_method e v (case rest of [] \<Rightarrow> None | m # ms \<Rightarrow> Some m),
                      req_url = build_url (fst cred) endpoint,
                      req_headers = [(''Authorization'', ''Bearer '' @ snd cred),
                                     (''Accept'', ''application/json''),
                                     (''Content-Type'', ''application/json'')],
                      req_body = JsonBody v, req_timeout = 30\<rparr>
         in sent (fst (main e argv)) = [(req, requests_request e req)]))"
proof (intro conjI impI)
  show parsed: "parse_json_payload e pstr = ([], Inr v)"
    using assms by (auto simp: parse_json_payload_def strip_Nil)
  assume some: "v \<noteq> PNone"
    and flags: "scan_flags argv = (raw_output, verbose, False, endpoint # pstr # rest)"
    and endpoint: "endpoint \<notin> set [''-h'', ''--help'']"
    and cred: "snd (validate_environment e) = Inr cred"
    and verb: "determine_method e v (case rest of [] \<Rightarrow> None | m # ms \<Rightarrow> Some m)
                   \<in> set [''POST'', ''PUT'', ''PATCH'']"
  define meth where "meth = (case rest of [] \<Rightarrow> None | m # ms \<Rightarrow> Some m)"
  define u where "u = build_url (fst cred) endpoint"
  define m where "m = determine_method e v meth"
  define hs where "hs = [(''Authorization'', ''Bearer '' @ snd cred), (''Accept'', ''application/json'')]
              @ (if \<not> False then [(''Content-Type'', ''application/json'')] else [])"
  define req where "req = \<lparr>req_method = m, req_url = u, req_headers = hs,
                             req_body = JsonBody v, req_timeout = 30\<rparr>"
  let ?I = "request_info e verbose raw_output u m hs v False"
  let ?M = "make_request e u m hs v False"
  let ?out = "requests_request e req"
  have main: "main e argv = run_request e raw_output verbose False endpoint pstr meth"
    unfolding meth_def by (rule main_run [OF flags endpoint])
  have P: "snd (parse_json_payload e pstr) = Inr v"
    using parsed by simp
  have info: "snd ?I = Inr ()"
    by (rule request_info_ok) simp
  note stages = run_request_stages [OF cred P u_def m_def hs_def info]
  have mth: "m \<in> set [''POST'', ''PUT'', ''PATCH'']"
    using verb unfolding m_def meth_def .
  have M: "fst ?M = Sent req ?out # fst (finish_request ?out)"
    using mth some unfolding req_def
    by (simp add: make_request_def fst_and_then Let_def)
  have "sent (fst ?M) = [(req, ?out)]"
    unfolding M using only_prints_silent [OF only_prints_finish [of ?out]] by simp
  then have "sent (fst (main e argv)) = [(req, ?out)]"
    unfolding main stages
    using only_prints_silent [OF only_prints_validate [of e]]
      only_prints_silent [OF only_prints_parse [of e pstr]]
      only_prints_silent [OF only_prints_request_info [of e verbose raw_output u m hs v False]]
      only_prints_silent [OF only_prints_format]
    by (simp split: sum.splits)
  then show "let req = \<lparr>req_method
                        = determine_method e v (case rest of [] \<Rightarrow> None | m # ms \<Rightarrow> Some m),
                      req_url = build_url (fst cred) endpoint,
                      req_headers = [(''Authorization'', ''Bearer '' @ snd cred),
                                     (''Accept'', ''application/json''),
                                     (''Content-Type'', ''application/json'')],
                      req_body = JsonBody v, req_timeout = 30\<rparr>
         in sent (fst (main e argv)) = [(req, requests_request e req)]"
    unfolding req_def m_def meth_def u_def hs_def by (simp add: Let_def)
qed

text \<open>
  A list as the payload, no method: the list is posted. With an explicit \<^verbatim>\<open>GET\<close>
  the parser returns the same list.
\<close>

theorem payload_value_is_sent_as_json_witness:
  \<open>parse_json_payload (example_env (\<lambda>p. False) (\<lambda>r. Response (reply 201 ''text/plain'' ''ok'')))
     ''[1, "two"]'' = ([], Inr (PList [PInt 1, PStr ''two'']))
   \<and> sent (fst (main (example_env (\<lambda>p. False) (\<lambda>r. Response (reply 201 ''text/plain'' ''ok'')))
                    [''recipes'', ''[1, "two"]'']))
       = [(\<lparr>req_method = ''POST'', req_url = ''https://mealie.example/api/recipes'',
            req_headers = [(''Authorization'', ''Bearer 0123456789abcdef''),
                           (''Accept'', ''application/json''),
                           (''Content-Type'', ''application/json'')],
            req_body = JsonBody (PList [PInt 1, PStr ''two'']), req_timeout = 30\<rparr>,
           Response (reply 201 ''text/plain'' ''ok''))]\<close>
proof -
  let ?e = "example_env (\<lambda>p. False) (\<lambda>r. Response (reply 201 ''text/plain'' ''ok''))"
  let ?argv = \<open>[''recipes'', ''[1, "two"]'']\<close>
  let ?v = "PList [PInt 1, PStr ''two'']"
  let ?cred = "(''https://mealie.example'', ''0123456789abcdef'')"
  let ?req = "\<lparr>req_method = ''POST'', req_url = ''https://mealie.example/api/recipes'',
            req_headers = [(''Authorization'', ''Bearer 0123456789abcdef''),
                           (''Accept'', ''application/json''),
                           (''Content-Type'', ''application/json'')],
            req_body = JsonBody ?v, req_timeout = 30\<rparr>"
  have flags: \<open>scan_flags ?argv = (False, False, False, ''recipes'' # ''[1, "two"]'' # [])\<close>
    by code_simp
  have endpoint: "''recipes'' \<notin> set [''-h'', ''--help'']"
    by code_simp
  have cred: "snd (validate_environment ?e) = Inr ?cred"
    by code_simp
  have nonblank: \<open>strip ''[1, "two"]'' \<noteq> []\<close>
    by code_simp
  have decoded: \<open>json_loads ?e ''[1, "two"]'' = Inr ?v\<close>
    by code_simp
  have some: "?v \<noteq> PNone"
    by simp
  have meth: "determine_method ?e ?v (case [] of [] \<Rightarrow> None | m # ms \<Rightarrow> Some m)
                \<in> set [''POST'', ''PUT'', ''PATCH'']"
    by code_simp
  have req: "\<lparr>req_method = determine_method ?e ?v (case [] of [] \<Rightarrow> None | m # ms \<Rightarrow> Some m),
                req_url = build_url (fst ?cred) ''recipes'',
                req_headers = [(''Authorization'', ''Bearer '' @ snd ?cred),
                               (''Accept'', ''application/json''),
                               (''Content-Type'', ''application/json'')],
                req_body = JsonBody ?v, req_timeout = 30\<rparr> = ?req"
    by code_simp
  have answer: "requests_request ?e ?req = Response (reply 201 ''text/plain'' ''ok'')"
    by (simp add: example_env_def)
  note all = payload_value_is_sent_as_json [OF nonblank decoded,
      of ?argv False False "''recipes''" "[]" ?cred]
  from all have 1: \<open>parse_json_payload ?e ''[1, "two"]'' = ([], Inr ?v)\<close>
    by (rule conjunct1)
  from all some flags endpoint cred meth
  have "sent (fst (main ?e ?argv)) = [(?req, requests_request ?e ?req)]"
    unfolding Let_def req by blast
  then have 2: "sent (fst (main ?e ?argv)) = [(?req, Response (reply 201 ''text/plain'' ''ok''))]"
    unfolding answer .
  show ?thesis by (intro conjI) (rule 1, rule 2)
qed

end
